theory Spec2Isabelle
  imports Complex_Main "HOL-Library.Word"
begin

unbundle bit_operations_syntax

section \<open>The host-side OpenCL dispatcher of kale-miner (clprog.cpp)\<close>

text \<open>
  The file \<^verbatim>\<open>src/clprog.cpp\<close> holds two functions: \<^verbatim>\<open>releaseResources\<close> and the entry
  point \<^verbatim>\<open>executeKernel\<close>, a straight-line sequence of OpenCL driver calls with an early
  exit after almost every one of them. The driver and the file system are outside the
  program: the embedding takes their answers as a parameter (the record \<open>driver\<close>) and
  makes every effect of the program explicit:
  \<^item> the driver calls that are checked, or that create, enqueue or release something, and
    the lines printed are logged, in program order, in a trace; the three queries whose
    codes the program ignores (lines 148, 150 and 192) are read from the driver without
    a trace entry;
  \<^item> the way a call ends is an \<open>outcome\<close>: it returns an \<^verbatim>\<open>int\<close>, or the process is
    terminated by \<^verbatim>\<open>exit(EXIT_FAILURE)\<close> inside the macro \<^verbatim>\<open>CL_CALL\<close>, or the program leaves
    defined behaviour (an index outside a vector, a division by zero, a read of an
    uninitialised variable or past the end of a buffer);
  \<^item> the caller's storage behind \<^verbatim>\<open>output\<close> and \<^verbatim>\<open>validNonce\<close> is part of the result.

  Exhaustion of the host heap (\<^verbatim>\<open>std::bad_alloc\<close> from a vector or a string) is not modelled.
\<close>

subsection \<open>Types\<close>

text \<open>
  Handles (\<^verbatim>\<open>cl_context\<close>, \<^verbatim>\<open>cl_mem\<close>, ...) are opaque pointers; \<open>0\<close> is \<^verbatim>\<open>nullptr\<close>. The
  integer types are those of an LP64 target: \<^verbatim>\<open>int\<close>, \<^verbatim>\<open>cl_int\<close> and \<^verbatim>\<open>cl_uint\<close> have 32 bits,
  \<^verbatim>\<open>size_t\<close>, \<^verbatim>\<open>cl_ulong\<close> and \<^verbatim>\<open>uint64_t\<close> have 64.

  Names are those of the source, but for three that HOL reserves: the parameter
  \<^verbatim>\<open>output\<close> is \<open>output_buf\<close>, the variable \<^verbatim>\<open>kernel\<close> is \<open>kernel_h\<close>, and the parameter \<^verbatim>\<open>id\<close>
  of \<^verbatim>\<open>getPlatform\<close> is \<open>id_p\<close>.
\<close>

type_synonym handle = nat
type_synonym cl_int = "32 word"
type_synonym cl_uint = "32 word"
type_synonym size_t = "64 word"

text \<open>\<^verbatim>\<open>CL_SUCCESS\<close> is 0.\<close>

abbreviation CL_SUCCESS :: cl_int where
  "CL_SUCCESS \<equiv> 0"

datatype event =
    DriverCall nat cl_int
      \<comment> \<open>a driver call wrapped in \<^verbatim>\<open>CL_CALL\<close> at this source line returned this code\<close>
  | CoutError nat cl_int
      \<comment> \<open>the line \<^verbatim>\<open>OpenCL Error in <file>, line <n>: Error Code <err>\<close> on \<^verbatim>\<open>std::cout\<close>\<close>
  | Cout string
  | CoutDeviceInfo handle
      \<comment> \<open>the five lines of device attributes printed when \<^verbatim>\<open>showDeviceInfo\<close> is set\<close>
  | Cerr string
  | CerrCode cl_int
      \<comment> \<open>the line \<^verbatim>\<open>Error: <err>\<close> on \<^verbatim>\<open>std::cerr\<close>\<close>
  | CerrBuildLog string
      \<comment> \<open>the line \<^verbatim>\<open>Kernel build error: \<close> followed by the build log, on \<^verbatim>\<open>std::cerr\<close>\<close>
  | CreateContext handle handle
      \<comment> \<open>device, and the context returned\<close>
  | CreateCommandQueue handle handle
      \<comment> \<open>context, and the queue returned\<close>
  | CreateProgramWithSource string handle
      \<comment> \<open>source text, and the program returned\<close>
  | BuildProgram handle cl_int
  | CreateKernel handle handle
      \<comment> \<open>program, and the kernel returned\<close>
  | CreateBuffer nat handle
      \<comment> \<open>position in \<^verbatim>\<open>buffers[]\<close>, and the buffer returned\<close>
  | EnqueueWriteBuffer handle bool cl_int cl_int
      \<comment> \<open>buffer, blocking flag, the scalar written, and the code returned\<close>
  | SetKernelArg nat cl_int
  | EnqueueNDRangeKernel size_t size_t cl_int
      \<comment> \<open>global work size, local work size, and the code returned\<close>
  | Finish
  | ReleaseMemObject handle
  | ReleaseKernel handle
  | ReleaseProgram handle
  | ReleaseCommandQueue handle
  | ReleaseContext handle

datatype outcome =
    Returned cl_int
  | Exited
      \<comment> \<open>\<^verbatim>\<open>exit(EXIT_FAILURE)\<close> in \<^verbatim>\<open>CL_CALL\<close>\<close>
  | Undefined_Behaviour

text \<open>
  What the driver and the file system answer. A field named \<open>...Err\<close> is the code a call
  returns; the number in the comment is the source line of the call.
\<close>

record driver =
  numPlatformsErr :: cl_int  \<comment> \<open>59\<close>
  numPlatforms :: cl_uint
  platformIdsErr :: cl_int  \<comment> \<open>61\<close>
  platformIds :: "nat \<Rightarrow> handle"
  platformNameSizeErr :: "handle \<Rightarrow> cl_int"  \<comment> \<open>45\<close>
  platformNameErr :: "handle \<Rightarrow> cl_int"  \<comment> \<open>47\<close>
  platformNameBuf :: "handle \<Rightarrow> string"
    \<comment> \<open>the \<^verbatim>\<open>len\<close> bytes of the name, its terminating NUL last\<close>
  numDevicesErr :: "handle \<Rightarrow> cl_int"  \<comment> \<open>73\<close>
  numDevices :: "handle \<Rightarrow> cl_uint"
  deviceIdsErr :: "handle \<Rightarrow> cl_int"  \<comment> \<open>81\<close>
  deviceIds :: "handle \<Rightarrow> nat \<Rightarrow> handle"
  deviceInfoErr :: "handle \<Rightarrow> nat \<Rightarrow> cl_int"  \<comment> \<open>91 to 96\<close>
  contextHandle :: handle  \<comment> \<open>107\<close>
  contextErr :: cl_int
  queueHandle :: handle  \<comment> \<open>113/115\<close>
  queueErr :: cl_int
  kernelFile :: "string option"  \<comment> \<open>123: the text of kernel.cl, if it opens\<close>
  keccakFile :: "string option"  \<comment> \<open>124: the text of utils/keccak.cl, if it opens\<close>
  programHandle :: handle  \<comment> \<open>138\<close>
  programErr :: cl_int
  buildErr :: cl_int  \<comment> \<open>145\<close>
  buildLogSizeErr :: cl_int  \<comment> \<open>148, not checked\<close>
  buildLogSize :: size_t
  buildLogErr :: cl_int  \<comment> \<open>150, not checked\<close>
  buildLog :: string
    \<comment> \<open>the bytes the second query writes, the terminating NUL of the log among them\<close>
  kernelHandle :: handle  \<comment> \<open>155\<close>
  kernelErr :: cl_int
  bufferHandle :: "nat \<Rightarrow> handle"  \<comment> \<open>162 to 165\<close>
  writeFoundErr :: cl_int  \<comment> \<open>175\<close>
  setArgErr :: "nat \<Rightarrow> cl_int"  \<comment> \<open>176 to 184\<close>
  maxWorkGroupSizeErr :: "handle \<Rightarrow> cl_int"  \<comment> \<open>192, not checked\<close>
  maxWorkGroupSize :: "handle \<Rightarrow> size_t"
  enqueueErr :: cl_int  \<comment> \<open>195\<close>
  readFoundErr :: cl_int  \<comment> \<open>203\<close>
  foundValue :: cl_int
  readOutputErr :: cl_int  \<comment> \<open>205\<close>
  deviceOutput :: "nat \<Rightarrow> 8 word"
  readNonceErr :: cl_int  \<comment> \<open>206\<close>
  deviceNonce :: "64 word"

text \<open>The parameters of \<^verbatim>\<open>executeKernel\<close>; \<open>platform = None\<close> is a null pointer.\<close>

record kernel_args =
  platform :: "string option"
  deviceId :: "32 word"
  data :: "8 word list"
  dataSize :: "32 word"
  startNonce :: "64 word"
  nonceOffset :: "32 word"
  batchSize :: "64 word"
  difficulty :: "32 word"
  threadsPerBlock :: "32 word"
  output_buf :: "8 word list"
  validNonce :: "64 word"
  showDeviceInfo :: bool

record result =
  trace :: "event list"
  outcome :: outcome
  hostOutput :: "8 word list"
  hostNonce :: "64 word"

subsection \<open>\<^verbatim>\<open>CL_CALL\<close> (lines 22 to 30)\<close>

definition CL_CALL :: "nat \<Rightarrow> cl_int \<Rightarrow> event list \<Rightarrow> (event list \<times> outcome) + event list" where
  "CL_CALL line err t =
     (if err \<noteq> CL_SUCCESS
      then Inl (t @ [DriverCall line err, CoutError line err], Exited)
      else Inr (t @ [DriverCall line err]))"

subsection \<open>\<^verbatim>\<open>releaseResources\<close> (lines 32 to 41)\<close>

text \<open>
  The loop \<^verbatim>\<open>for (int i = 0; i < bufferCount; i++)\<close> runs over the indices it is given;
  reading \<^verbatim>\<open>buffers[i]\<close> outside the array is undefined behaviour (\<open>None\<close>).
\<close>

primrec releaseBuffers :: "handle list \<Rightarrow> nat list \<Rightarrow> event list option" where
  "releaseBuffers buffers [] = Some []"
| "releaseBuffers buffers (i # is) =
     (if i < length buffers
      then (case releaseBuffers buffers is of
              None \<Rightarrow> None
            | Some es \<Rightarrow>
                Some ((if buffers ! i \<noteq> 0 then [ReleaseMemObject (buffers ! i)] else []) @ es))
      else None)"

definition releaseResources ::
  "handle \<Rightarrow> handle \<Rightarrow> handle \<Rightarrow> handle \<Rightarrow> handle list \<Rightarrow> int \<Rightarrow> event list option" where
  "releaseResources context commandQueue program kernel_h buffers bufferCount =
     (case releaseBuffers buffers [0..<nat bufferCount] of
        None \<Rightarrow> None
      | Some es \<Rightarrow>
          Some (es
            @ (if kernel_h \<noteq> 0 then [ReleaseKernel kernel_h] else [])
            @ (if program \<noteq> 0 then [ReleaseProgram program] else [])
            @ (if commandQueue \<noteq> 0 then [ReleaseCommandQueue commandQueue] else [])
            @ (if context \<noteq> 0 then [ReleaseContext context] else [])))"

text \<open>Two calls in a row with the same arguments: the handles are passed by value.\<close>

definition releaseResourcesTwice ::
  "handle \<Rightarrow> handle \<Rightarrow> handle \<Rightarrow> handle \<Rightarrow> handle list \<Rightarrow> int \<Rightarrow> event list option" where
  "releaseResourcesTwice context commandQueue program kernel_h buffers bufferCount =
     (case releaseResources context commandQueue program kernel_h buffers bufferCount of
        None \<Rightarrow> None
      | Some es1 \<Rightarrow>
          (case releaseResources context commandQueue program kernel_h buffers bufferCount of
             None \<Rightarrow> None
           | Some es2 \<Rightarrow> Some (es1 @ es2)))"

text \<open>The pattern \<^verbatim>\<open>releaseResources(...); return v;\<close> at the end of a branch.\<close>

definition releaseAndReturn :: "event list \<Rightarrow> event list option \<Rightarrow> cl_int \<Rightarrow> event list \<times> outcome" where
  "releaseAndReturn t released v =
     (case released of
        None \<Rightarrow> (t, Undefined_Behaviour)
      | Some es \<Rightarrow> (t @ es, Returned v))"

subsection \<open>Platform enumeration and selection (lines 43 to 71)\<close>

definition getPlatform ::
  "driver \<Rightarrow> handle \<Rightarrow> event list \<Rightarrow> (event list \<times> outcome) + (event list \<times> string)" where
  "getPlatform drv id_p t =
     (case CL_CALL 45 (platformNameSizeErr drv id_p) t of
        Inl r \<Rightarrow> Inl r
      | Inr t1 \<Rightarrow>
          (case CL_CALL 47 (platformNameErr drv id_p) t1 of
             Inl r \<Rightarrow> Inl r
           | Inr t2 \<Rightarrow>
               (let buf = platformNameBuf drv id_p
                in if buf = [] then Inl (t2, Undefined_Behaviour)
                   else Inr (t2, butlast buf))))"

text \<open>
  The loop of lines 65 to 70 over the indices \<open>i\<close>; \<open>platformIndex\<close> is the \<^verbatim>\<open>int\<close> of the
  source, and \<^verbatim>\<open>static_cast<int>(i)\<close> reads the unsigned \<open>i\<close> as a signed 32-bit value.
\<close>

fun listPlatforms ::
  "driver \<Rightarrow> kernel_args \<Rightarrow> nat list \<Rightarrow> int \<Rightarrow> event list
     \<Rightarrow> (event list \<times> outcome) + (event list \<times> int)" where
  "listPlatforms drv a [] platformIndex t = Inr (t, platformIndex)"
| "listPlatforms drv a (i # is) platformIndex t =
     (case getPlatform drv (platformIds drv i) t of
        Inl r \<Rightarrow> Inl r
      | Inr (t1, name) \<Rightarrow>
          (let match = (platformIndex < 0
                 \<and> (case platform a of None \<Rightarrow> False | Some p \<Rightarrow> p \<noteq> [] \<and> name = p))
           in listPlatforms drv a is
                (if match then sint (word_of_nat i :: 32 word) else platformIndex)
                (t1 @ [Cout (''    ['' @ (if match then ''X'' else '' '') @ ''] '' @ name)])))"

text \<open>
  Line 71 indexes the vector \<open>platforms\<close>, which has \<open>numPlatforms\<close> entries, with no check.
\<close>

definition enumeratePlatforms ::
  "driver \<Rightarrow> kernel_args \<Rightarrow> event list \<Rightarrow> (event list \<times> outcome) + (event list \<times> handle)" where
  "enumeratePlatforms drv a t =
     (case CL_CALL 59 (numPlatformsErr drv) t of
        Inl r \<Rightarrow> Inl r
      | Inr t1 \<Rightarrow>
          (case CL_CALL 61 (platformIdsErr drv) t1 of
             Inl r \<Rightarrow> Inl r
           | Inr t2 \<Rightarrow>
               (case listPlatforms drv a [0..<unat (numPlatforms drv)] (- 1)
                       (t2 @ [Cout ''OpenCL platforms:'']) of
                  Inl r \<Rightarrow> Inl r
                | Inr (t3, platformIndex) \<Rightarrow>
                    (let idx = (if platformIndex \<noteq> - 1 then platformIndex else 0)
                     in if 0 \<le> idx \<and> nat idx < unat (numPlatforms drv)
                        then Inr (t3, platformIds drv (nat idx))
                        else Inl (t3, Undefined_Behaviour)))))"

subsection \<open>Device selection (lines 73 to 82)\<close>

text \<open>
  In \<^verbatim>\<open>deviceId >= numDevices\<close> the \<^verbatim>\<open>int\<close> is converted to \<^verbatim>\<open>cl_uint\<close>: the comparison is the
  unsigned one of two 32-bit words. \<^verbatim>\<open>devices[deviceId]\<close> converts the \<^verbatim>\<open>int\<close> to
  \<^verbatim>\<open>size_t\<close>, so a negative index is outside the vector.
\<close>

definition selectDevice ::
  "driver \<Rightarrow> kernel_args \<Rightarrow> handle \<Rightarrow> event list \<Rightarrow> (event list \<times> outcome) + (event list \<times> handle)" where
  "selectDevice drv a platformId t =
     (case CL_CALL 73 (numDevicesErr drv platformId) t of
        Inl r \<Rightarrow> Inl r
      | Inr t1 \<Rightarrow>
          (if numDevices drv platformId \<le> deviceId a
           then Inl (t1 @ [Cerr ''Invalid device ID''], Returned (- 1))
           else (case CL_CALL 81 (deviceIdsErr drv platformId) t1 of
                   Inl r \<Rightarrow> Inl r
                 | Inr t2 \<Rightarrow>
                     (if 0 \<le> sint (deviceId a) \<and> nat (sint (deviceId a)) < unat (numDevices drv platformId)
                      then Inr (t2, deviceIds drv platformId (nat (sint (deviceId a))))
                      else Inl (t2, Undefined_Behaviour)))))"

subsection \<open>Device diagnostics (lines 84 to 105)\<close>

fun checkedCalls :: "(nat \<times> cl_int) list \<Rightarrow> event list \<Rightarrow> (event list \<times> outcome) + event list" where
  "checkedCalls [] t = Inr t"
| "checkedCalls ((line, err) # cs) t =
     (case CL_CALL line err t of
        Inl r \<Rightarrow> Inl r
      | Inr t1 \<Rightarrow> checkedCalls cs t1)"

definition printDeviceInfo ::
  "driver \<Rightarrow> kernel_args \<Rightarrow> handle \<Rightarrow> event list \<Rightarrow> (event list \<times> outcome) + event list" where
  "printDeviceInfo drv a selectedDevice t =
     (if showDeviceInfo a
      then (case checkedCalls (map (\<lambda>i. (91 + i, deviceInfoErr drv selectedDevice i)) [0..<6]) t of
              Inl r \<Rightarrow> Inl r
            | Inr t1 \<Rightarrow> Inr (t1 @ [CoutDeviceInfo selectedDevice]))
      else Inr t)"

subsection \<open>Context and queue (lines 107 to 121)\<close>

definition createContextAndQueue ::
  "driver \<Rightarrow> handle \<Rightarrow> event list \<Rightarrow> (event list \<times> outcome) + (event list \<times> handle \<times> handle)" where
  "createContextAndQueue drv selectedDevice t =
     (let context = contextHandle drv;
          t1 = t @ [CreateContext selectedDevice context]
      in if context = 0
         then Inl (t1 @ [CerrCode (contextErr drv)], Returned (- 1))
         else (let commandQueue = queueHandle drv;
                   t2 = t1 @ [CreateCommandQueue context commandQueue]
               in if commandQueue = 0
                  then Inl (releaseAndReturn (t2 @ [CerrCode (queueErr drv)])
                              (releaseResources context commandQueue 0 0 [] 0) (- 1))
                  else Inr (t2, context, commandQueue)))"

subsection \<open>Program build and kernel extraction (lines 123 to 160)\<close>

text \<open>
  Lines 147 to 151 fetch the build log with two calls whose codes are not looked at. When
  the size query fails, \<^verbatim>\<open>logSize\<close> is read uninitialised. Otherwise the vector has
  \<open>logSize\<close> zero bytes, which the second query overwrites if it succeeds, and
  \<^verbatim>\<open>std::cerr << buildLog.data()\<close> prints the bytes up to the first NUL: with no NUL in the
  vector (an empty vector included) it reads past its end. \<open>None\<close> is undefined behaviour,
  \<open>Some s\<close> the text printed.
\<close>

definition buildLogText :: "driver \<Rightarrow> string option" where
  "buildLogText drv =
     (if buildLogSizeErr drv \<noteq> CL_SUCCESS then None
      else (let logSize = unat (buildLogSize drv);
                logBuffer =
                  (if buildLogErr drv = CL_SUCCESS
                   then take logSize (buildLog drv)
                          @ replicate (logSize - length (buildLog drv)) (CHR 0x00)
                   else replicate logSize (CHR 0x00))
            in if CHR 0x00 \<in> set logBuffer
               then Some (takeWhile (\<lambda>c. c \<noteq> CHR 0x00) logBuffer)
               else None))"

definition buildKernel ::
  "driver \<Rightarrow> handle \<Rightarrow> handle \<Rightarrow> handle \<Rightarrow> event list
     \<Rightarrow> (event list \<times> outcome) + (event list \<times> handle \<times> handle)" where
  "buildKernel drv selectedDevice context commandQueue t =
     (case (kernelFile drv, keccakFile drv) of
        (Some kernelSource, Some keccakSource) \<Rightarrow>
          (let fullSource = keccakSource @ [CHR 0x0A] @ kernelSource;
               program = programHandle drv;
               t1 = t @ [CreateProgramWithSource fullSource program]
           in if program = 0
              then Inl (releaseAndReturn (t1 @ [CerrCode (programErr drv)])
                          (releaseResources context commandQueue program 0 [] 0) (- 1))
              else (let error = buildErr drv;
                        t2 = t1 @ [BuildProgram program error]
                    in if error \<noteq> CL_SUCCESS
                       then (case buildLogText drv of
                               None \<Rightarrow> Inl (t2, Undefined_Behaviour)
                             | Some logText \<Rightarrow>
                                 Inl (releaseAndReturn (t2 @ [CerrBuildLog logText])
                                        (releaseResources context commandQueue program 0 [] 0)
                                        (- 1)))
                       else (let kernel_h = kernelHandle drv;
                                 error = kernelErr drv;
                                 t3 = t2 @ [CreateKernel program kernel_h]
                             in if kernel_h = 0 \<or> error \<noteq> CL_SUCCESS
                                then Inl (releaseAndReturn (t3 @ [CerrCode error])
                                            (releaseResources context commandQueue program kernel_h [] 0)
                                            (- 1))
                                else Inr (t3, program, kernel_h))))
      | _ \<Rightarrow>
          Inl (releaseAndReturn (t @ [Cerr ''Failed to load OpenCL kernel files.''])
                 (releaseResources context commandQueue 0 0 [] 0) (- 1)))"

subsection \<open>Buffers and kernel arguments (lines 162 to 189)\<close>

text \<open>
  The four buffers are created unconditionally and checked afterwards; the codes of the
  blocking write of \<open>foundValue = 0\<close> and of the nine \<^verbatim>\<open>clSetKernelArg\<close> calls are
  collected with \<^verbatim>\<open>|=\<close> and tested once.
\<close>

definition bindBuffers ::
  "driver \<Rightarrow> handle \<Rightarrow> handle \<Rightarrow> handle \<Rightarrow> handle \<Rightarrow> event list
     \<Rightarrow> (event list \<times> outcome) + (event list \<times> handle list)" where
  "bindBuffers drv context commandQueue program kernel_h t =
     (let buffers = map (bufferHandle drv) [0..<4];
          t1 = t @ map (\<lambda>i. CreateBuffer i (bufferHandle drv i)) [0..<4]
      in if 0 \<in> set buffers
         then Inl (releaseAndReturn (t1 @ [Cerr ''Error allocating buffer.''])
                     (releaseResources context commandQueue program kernel_h buffers 4) (- 1))
         else (let foundBuffer = buffers ! 1;
                   error = foldl (OR) (writeFoundErr drv) (map (setArgErr drv) [0..<9]);
                   t2 = t1 @ [EnqueueWriteBuffer foundBuffer True 0 (writeFoundErr drv)]
                           @ map (\<lambda>i. SetKernelArg i (setArgErr drv i)) [0..<9]
               in if error \<noteq> CL_SUCCESS
                  then Inl (releaseAndReturn (t2 @ [CerrCode error])
                              (releaseResources context commandQueue program kernel_h buffers 4) (- 1))
                  else Inr (t2, buffers)))"

subsection \<open>Work partitioning (lines 191 to 194)\<close>

text \<open>
  \<^verbatim>\<open>static_cast<size_t>(threadsPerBlock)\<close> sign-extends the \<^verbatim>\<open>int\<close> \<open>threads\<close>; the
  arithmetic of line 194 is that of 64-bit unsigned words (\<^verbatim>\<open>size_t\<close> and \<^verbatim>\<open>uint64_t\<close> on an
  LP64 target) and wraps around; dividing by a local size of 0 is undefined behaviour
  (\<open>None\<close>).
\<close>

definition localWorkSize :: "32 word \<Rightarrow> size_t \<Rightarrow> size_t" where
  "localWorkSize threads maxGroupSize = min (scast threads) maxGroupSize"

definition globalWorkSize :: "64 word \<Rightarrow> size_t \<Rightarrow> size_t option" where
  "globalWorkSize batch localSize =
     (if localSize = 0 then None
      else Some (((batch + localSize - 1) div localSize) * localSize))"

subsection \<open>Dispatch and readback (lines 191 to 209)\<close>

definition stop :: "kernel_args \<Rightarrow> event list \<times> outcome \<Rightarrow> result" where
  "stop a r = \<lparr>trace = fst r, outcome = snd r, hostOutput = output_buf a, hostNonce = validNonce a\<rparr>"

text \<open>
  The code of the device query of line 192 is not looked at: when the query fails,
  \<^verbatim>\<open>maxWorkGroupSize\<close> is read uninitialised.

  A blocking read of 32 bytes into the caller's \<^verbatim>\<open>output\<close>; storage shorter than that is
  overrun. A read that fails is taken to leave the storage as it was.
\<close>

definition dispatch ::
  "driver \<Rightarrow> kernel_args \<Rightarrow> handle \<Rightarrow> handle \<Rightarrow> handle \<Rightarrow> handle \<Rightarrow> handle \<Rightarrow> handle list
     \<Rightarrow> event list \<Rightarrow> result" where
  "dispatch drv a selectedDevice context commandQueue program kernel_h buffers t =
     (if maxWorkGroupSizeErr drv selectedDevice \<noteq> CL_SUCCESS
      then stop a (t, Undefined_Behaviour)
      else
      let localSize = localWorkSize (threadsPerBlock a) (maxWorkGroupSize drv selectedDevice)
      in case globalWorkSize (batchSize a) localSize of
           None \<Rightarrow> stop a (t, Undefined_Behaviour)
         | Some globalSize \<Rightarrow>
             (let error = enqueueErr drv;
                  t1 = t @ [EnqueueNDRangeKernel globalSize localSize error]
              in if error \<noteq> CL_SUCCESS
                 then stop a (releaseAndReturn (t1 @ [CerrCode error])
                        (releaseResources context commandQueue program kernel_h buffers 4) (- 1))
                 else (case CL_CALL 203 (readFoundErr drv) (t1 @ [Finish]) of
                         Inl r \<Rightarrow> stop a r
                       | Inr t2 \<Rightarrow>
                           (if foundValue drv = 1
                            then (if length (output_buf a) < 32 then stop a (t2, Undefined_Behaviour)
                                  else (case CL_CALL 205 (readOutputErr drv) t2 of
                                          Inl r \<Rightarrow> stop a r
                                        | Inr t3 \<Rightarrow>
                                            (let output' = map (deviceOutput drv) [0..<32]
                                                             @ drop 32 (output_buf a)
                                             in case CL_CALL 206 (readNonceErr drv) t3 of
                                                  Inl r \<Rightarrow> (stop a r)\<lparr>hostOutput := output'\<rparr>
                                                | Inr t4 \<Rightarrow>
                                                    (stop a (releaseAndReturn t4
                                                       (releaseResources context commandQueue
                                                          program kernel_h buffers 4)
                                                       (foundValue drv)))
                                                    \<lparr>hostOutput := output',
                                                      hostNonce := deviceNonce drv\<rparr>)))
                            else stop a (releaseAndReturn t2
                                   (releaseResources context commandQueue program kernel_h buffers 4)
                                   (foundValue drv))))))"

subsection \<open>\<^verbatim>\<open>executeKernel\<close> (lines 51 to 210)\<close>

text \<open>
  The body of \<^verbatim>\<open>executeKernel\<close> in program order. \<open>deviceSetup\<close> is lines 59 to 105 and
  \<open>contextSetup\<close> lines 59 to 121: \<open>Inr\<close> says that the execution has reached the line
  after them, with the trace so far and the handles obtained.
\<close>

definition deviceSetup ::
  "driver \<Rightarrow> kernel_args \<Rightarrow> (event list \<times> outcome) + (event list \<times> handle)" where
  "deviceSetup drv a =
     (case enumeratePlatforms drv a [] of
        Inl r \<Rightarrow> Inl r
      | Inr (t1, platformId) \<Rightarrow>
          (case selectDevice drv a platformId t1 of
             Inl r \<Rightarrow> Inl r
           | Inr (t2, selectedDevice) \<Rightarrow>
               (case printDeviceInfo drv a selectedDevice t2 of
                  Inl r \<Rightarrow> Inl r
                | Inr t3 \<Rightarrow> Inr (t3, selectedDevice))))"

definition contextSetup ::
  "driver \<Rightarrow> kernel_args
     \<Rightarrow> (event list \<times> outcome) + (event list \<times> handle \<times> handle \<times> handle)" where
  "contextSetup drv a =
     (case deviceSetup drv a of
        Inl r \<Rightarrow> Inl r
      | Inr (t3, selectedDevice) \<Rightarrow>
          (case createContextAndQueue drv selectedDevice t3 of
             Inl r \<Rightarrow> Inl r
           | Inr (t4, context, commandQueue) \<Rightarrow> Inr (t4, selectedDevice, context, commandQueue)))"

definition executeKernel :: "driver \<Rightarrow> kernel_args \<Rightarrow> result" where
  "executeKernel drv a =
     (case contextSetup drv a of
        Inl r \<Rightarrow> stop a r
      | Inr (t4, selectedDevice, context, commandQueue) \<Rightarrow>
          (case buildKernel drv selectedDevice context commandQueue t4 of
             Inl r \<Rightarrow> stop a r
           | Inr (t5, program, kernel_h) \<Rightarrow>
               (case bindBuffers drv context commandQueue program kernel_h t5 of
                  Inl r \<Rightarrow> stop a r
                | Inr (t6, buffers) \<Rightarrow>
                    dispatch drv a selectedDevice context commandQueue program kernel_h
                      buffers t6)))"

subsection \<open>Kinds of events\<close>

text \<open>
  \<open>benign\<close>: a line of diagnostics, or a checked driver call that succeeded.
  \<open>creates\<close>: a call that creates a context, queue, program, kernel or buffer.
  \<open>launches\<close>: the kernel enqueue.
\<close>

fun benign :: "event \<Rightarrow> bool" where
  "benign (DriverCall line err) = (err = CL_SUCCESS)"
| "benign (Cout s) = True"
| "benign (CoutDeviceInfo d) = True"
| "benign (Cerr s) = True"
| "benign _ = False"

fun creates :: "event \<Rightarrow> bool" where
  "creates (CreateContext d h) = True"
| "creates (CreateCommandQueue c h) = True"
| "creates (CreateProgramWithSource s h) = True"
| "creates (CreateKernel p h) = True"
| "creates (CreateBuffer i h) = True"
| "creates _ = False"

fun launches :: "event \<Rightarrow> bool" where
  "launches (EnqueueNDRangeKernel g l err) = True"
| "launches _ = False"

fun releases :: "event \<Rightarrow> bool" where
  "releases (ReleaseMemObject h) = True"
| "releases (ReleaseKernel h) = True"
| "releases (ReleaseProgram h) = True"
| "releases (ReleaseCommandQueue h) = True"
| "releases (ReleaseContext h) = True"
| "releases _ = False"

text \<open>
  \<open>fatal_tail\<close>: the events of a run that \<^verbatim>\<open>CL_CALL\<close> terminates. Everything is benign up to
  a checked driver call that fails; its diagnostic follows, and nothing after it.
\<close>

fun fatal_tail :: "event list \<Rightarrow> bool" where
  "fatal_tail (DriverCall line err # es) =
     (if err = CL_SUCCESS then fatal_tail es else es = [CoutError line err])"
| "fatal_tail (e # es) = (benign e \<and> fatal_tail es)"
| "fatal_tail [] = False"

text \<open>
  \<open>aborted\<close>: how lines 59 to 105 stop without returning. Either a failed \<^verbatim>\<open>CL_CALL\<close>
  has terminated the process, or the program has left defined behaviour after benign
  events only.
\<close>

definition aborted :: "event list \<Rightarrow> outcome \<Rightarrow> bool" where
  "aborted es oc =
     ((oc = Exited \<and> fatal_tail es) \<or> (oc = Undefined_Behaviour \<and> list_all benign es))"

subsection \<open>A concrete driver and call\<close>

text \<open>
  One platform with one GPU, every driver call succeeding, both source files present,
  and a kernel that leaves the found flag at 0: a call with these returns 0.
\<close>

definition demoDriver :: driver where
  "demoDriver =
     \<lparr>numPlatformsErr = 0, numPlatforms = 1, platformIdsErr = 0,
      platformIds = (\<lambda>i. 11 + i),
      platformNameSizeErr = (\<lambda>p. 0), platformNameErr = (\<lambda>p. 0),
      platformNameBuf = (\<lambda>p. ''GPU'' @ [CHR 0x00]),
      numDevicesErr = (\<lambda>p. 0), numDevices = (\<lambda>p. 1), deviceIdsErr = (\<lambda>p. 0),
      deviceIds = (\<lambda>p i. 21 + i), deviceInfoErr = (\<lambda>d i. 0),
      contextHandle = 31, contextErr = 0, queueHandle = 32, queueErr = 0,
      kernelFile = Some ''run'', keccakFile = Some ''keccak'',
      programHandle = 33, programErr = 0, buildErr = 0,
      buildLogSizeErr = 0, buildLogSize = 1, buildLogErr = 0, buildLog = [CHR 0x00],
      kernelHandle = 34, kernelErr = 0,
      bufferHandle = (\<lambda>i. 41 + i),
      writeFoundErr = 0, setArgErr = (\<lambda>i. 0),
      maxWorkGroupSizeErr = (\<lambda>d. 0), maxWorkGroupSize = (\<lambda>d. 1024), enqueueErr = 0,
      readFoundErr = 0, foundValue = 0,
      readOutputErr = 0, deviceOutput = (\<lambda>i. 255), readNonceErr = 0, deviceNonce = 77\<rparr>"

definition demoArgs :: kernel_args where
  "demoArgs =
     \<lparr>platform = None, deviceId = 0, data = replicate 80 0, dataSize = 80,
      startNonce = 0, nonceOffset = 1, batchSize = 1000, difficulty = 4,
      threadsPerBlock = 256, output_buf = replicate 32 0, validNonce = 0,
      showDeviceInfo = False\<rparr>"


section \<open>Work partitioning\<close>

text \<open>Rounding a natural number up to a multiple of \<open>l\<close>, as line 194 does it.\<close>

lemma round_up_nat:
  fixes b l :: nat
  assumes "0 < l"
  shows "b \<le> ((b + l - 1) div l) * l" and "((b + l - 1) div l) * l \<le> b + l - 1"
proof -
  let ?m = "b + l - 1"
  have "?m = (?m div l) * l + ?m mod l" by simp
  moreover have "?m mod l \<le> l - 1" using assms by (simp add: less_Suc_eq_le [symmetric])
  ultimately show "b \<le> (?m div l) * l" using assms by linarith
  show "(?m div l) * l \<le> ?m" by simp
qed

lemma ceil_div_nat:
  fixes b l :: nat
  assumes "0 < l"
  shows "\<lceil>real b / real l\<rceil> = int ((b + l - 1) div l)"
proof -
  let ?q = "(b + l - 1) div l"
  have up: "b \<le> ?q * l" and lo: "?q * l \<le> b + l - 1"
    using round_up_nat [OF assms] by blast+
  have "real b \<le> real (?q * l)" using up by (rule of_nat_mono)
  then have a: "real b / real l \<le> real ?q" using assms by (simp add: field_simps)
  have "?q * l < b + l" using lo assms by linarith
  then have "real (?q * l) < real (b + l)" by (simp only: of_nat_less_iff)
  then have b: "real ?q - 1 < real b / real l" using assms by (simp add: field_simps)
  show ?thesis using a b by (simp add: ceiling_eq_iff)
qed

text \<open>The 64-bit computation agrees with the one on naturals as long as nothing wraps.\<close>

lemma unat_round_up:
  fixes batch l :: "64 word"
  assumes "l \<noteq> 0" and "unat batch + unat l - 1 < 2 ^ 64"
  shows "unat (((batch + l - 1) div l) * l) = ((unat batch + unat l - 1) div unat l) * unat l"
proof -
  have l1: "unat (l - 1) = unat l - 1" using assms(1) by (simp add: unat_minus_one)
  have lpos: "0 < unat l" using assms(1) by (simp add: unat_gt_0)
  have "batch + l - 1 = batch + (l - 1)" by simp
  moreover have "unat (batch + (l - 1)) = unat batch + unat (l - 1)"
    using assms(2) l1 lpos by (subst unat_add_lem [THEN iffD1]) auto
  ultimately have s: "unat (batch + l - 1) = unat batch + unat l - 1"
    using l1 lpos by (simp only: )
  have d: "unat ((batch + l - 1) div l) = (unat batch + unat l - 1) div unat l"
    by (simp add: unat_div s)
  have "(unat batch + unat l - 1) div unat l * unat l \<le> unat batch + unat l - 1"
    by simp
  then have "(unat batch + unat l - 1) div unat l * unat l < 2 ^ 64"
    using assms(2) by (rule le_less_trans)
  then have "unat ((batch + l - 1) div l) * unat l < 2 ^ 64"
    by (simp only: d)
  then have "unat (((batch + l - 1) div l) * l) = unat ((batch + l - 1) div l) * unat l"
    by (subst unat_mult_lem [THEN iffD1]) auto
  then show ?thesis using d by simp
qed

lemma scast_nonneg:
  fixes w :: "32 word"
  assumes "0 \<le> sint w"
  shows "unat (scast w :: 64 word) = nat (sint w)"
proof -
  have "sint w < 2 ^ 31" using sint_lt [of w] by simp
  then have "sint w < 2 ^ 64" by (rule less_trans) simp
  then have "take_bit 64 (sint w) = sint w" using assms by (simp add: take_bit_int_eq_self)
  moreover have "uint (scast w :: 64 word) = take_bit 64 (sint w)"
    by (simp only: scast_eq uint_word_of_int_eq) simp
  ultimately show ?thesis by (simp only: unat_eq_nat_uint)
qed

text \<open>
  Claim C3, as stated, for all triples: the local size is the minimum of the requested
  threads per block and the device maximum, the global size is
  \<open>ceil (batch / local) * local\<close>, at least the batch size and a multiple of the local
  size. It fails where line 194 wraps around: a batch of \<open>2 ^ 64 - 1\<close> work items with
  256 threads per block gets a global size of 0. (With 0 threads per block the local size
  is 0 and line 194 divides by zero.)
\<close>

theorem work_partition_wraps_counterexample:
  "globalWorkSize (- 1) (localWorkSize 256 1024) = Some 0
   \<and> \<not> unat (- 1 :: 64 word) \<le> unat (0 :: 64 word)
   \<and> globalWorkSize 1000 (localWorkSize 0 1024) = None"
  by (simp add: globalWorkSize_def localWorkSize_def unat_eq_0)

text \<open>
  Claim C3, amended: for every triple whose local size is not 0 and for which
  \<open>batch + local - 1\<close> fits in 64 bits, the local size is the minimum of the requested
  threads per block (converted to \<^verbatim>\<open>size_t\<close>) and the device maximum, the global size is
  \<open>ceil (batch / local) * local\<close>, it is at least the batch size, and it is a multiple
  of the local size.
\<close>

theorem work_partition_rounds_up:
  assumes "localWorkSize threads maxGroup \<noteq> 0"
    and "unat batch + unat (localWorkSize threads maxGroup) - 1 < 2 ^ 64"
  shows "\<exists>g. globalWorkSize batch (localWorkSize threads maxGroup) = Some g
    \<and> int (unat g) = \<lceil>real (unat batch) / real (unat (localWorkSize threads maxGroup))\<rceil>
          * int (unat (localWorkSize threads maxGroup))
    \<and> unat batch \<le> unat g
    \<and> unat (localWorkSize threads maxGroup) dvd unat g
    \<and> unat (localWorkSize threads maxGroup) = min (unat (scast threads :: 64 word)) (unat maxGroup)
    \<and> (0 \<le> sint threads \<longrightarrow>
          unat (localWorkSize threads maxGroup) = min (nat (sint threads)) (unat maxGroup))"
proof -
  let ?l = "localWorkSize threads maxGroup"
  let ?g = "((batch + ?l - 1) div ?l) * ?l"
  have lpos: "0 < unat ?l" using assms(1) by (simp add: unat_gt_0)
  have g: "globalWorkSize batch ?l = Some ?g" using assms(1) by (simp add: globalWorkSize_def)
  have u: "unat ?g = ((unat batch + unat ?l - 1) div unat ?l) * unat ?l"
    using assms by (rule unat_round_up)
  have c: "int (unat ?g) = \<lceil>real (unat batch) / real (unat ?l)\<rceil> * int (unat ?l)"
    by (simp only: u ceil_div_nat [OF lpos] of_nat_mult)
  have ge: "unat batch \<le> unat ?g" using round_up_nat(1) [OF lpos] by (simp only: u)
  have dv: "unat ?l dvd unat ?g" by (simp only: u dvd_triv_right)
  have m: "unat ?l = min (unat (scast threads :: 64 word)) (unat maxGroup)"
    by (simp add: localWorkSize_def min_def word_le_nat_alt)
  have m': "0 \<le> sint threads \<longrightarrow> unat ?l = min (nat (sint threads)) (unat maxGroup)"
    using m by (simp add: scast_nonneg)
  show ?thesis using g c ge dv m m' by blast
qed

theorem work_partition_rounds_up_witness:
  "localWorkSize 256 1024 = 256
   \<and> unat (1000 :: 64 word) + unat (localWorkSize 256 1024) - 1 < 2 ^ 64
   \<and> globalWorkSize 1000 (localWorkSize 256 1024) = Some 1024
   \<and> unat (1000 :: 64 word) \<le> unat (1024 :: 64 word)
   \<and> (256 :: nat) dvd 1024"
  using work_partition_rounds_up [of 256 1024 1000]
  by (simp add: globalWorkSize_def localWorkSize_def)

section \<open>The stages of \<^verbatim>\<open>executeKernel\<close>, one at a time\<close>

lemma fatal_tail_append: "list_all benign es1 \<Longrightarrow> fatal_tail (es1 @ es2) = fatal_tail es2"
proof (induction es1)
  case Nil
  then show ?case by simp
next
  case (Cons e es1)
  then show ?case by (cases e) simp_all
qed

lemma aborted_append: "list_all benign es1 \<Longrightarrow> aborted es2 oc \<Longrightarrow> aborted (es1 @ es2) oc"
  by (auto simp: aborted_def fatal_tail_append)

lemma aborted_CL_CALL: "err \<noteq> CL_SUCCESS \<Longrightarrow> aborted [DriverCall line err, CoutError line err] Exited"
  by (simp add: aborted_def)

lemma aborted_UB: "list_all benign es \<Longrightarrow> aborted es Undefined_Behaviour"
  by (simp add: aborted_def)

lemma getPlatform_Inr:
  "getPlatform drv p t = Inr (t', name) \<Longrightarrow> t' = t @ [DriverCall 45 CL_SUCCESS, DriverCall 47 CL_SUCCESS]"
  by (auto simp: getPlatform_def CL_CALL_def Let_def split: if_splits)

lemma getPlatform_Inl:
  "getPlatform drv p t = Inl (t', oc) \<Longrightarrow> \<exists>es. t' = t @ es \<and> aborted es oc"
  by (auto simp: getPlatform_def CL_CALL_def Let_def aborted_def split: if_splits)

lemma listPlatforms_Inr:
  "listPlatforms drv a is ix t = Inr (t', ix') \<Longrightarrow> \<exists>es. t' = t @ es \<and> list_all benign es"
proof (induction "is" arbitrary: ix t)
  case Nil
  then show ?case by simp
next
  case (Cons i "is")
  from Cons.prems obtain t1 name where g: "getPlatform drv (platformIds drv i) t = Inr (t1, name)"
    by (auto split: sum.splits)
  from Cons.prems g obtain ix1 line where
    r: "listPlatforms drv a is ix1 (t1 @ [Cout line]) = Inr (t', ix')"
    by (auto simp: Let_def)
  from Cons.IH [OF r] obtain es where "t' = (t1 @ [Cout line]) @ es" "list_all benign es" by blast
  then show ?case using getPlatform_Inr [OF g] by simp
qed

lemma listPlatforms_Inl:
  "listPlatforms drv a is ix t = Inl (t', oc) \<Longrightarrow> \<exists>es. t' = t @ es \<and> aborted es oc"
proof (induction "is" arbitrary: ix t)
  case Nil
  then show ?case by simp
next
  case (Cons i "is")
  show ?case
  proof (cases "getPlatform drv (platformIds drv i) t")
    case (Inl r)
    then have "getPlatform drv (platformIds drv i) t = Inl (t', oc)" using Cons.prems by simp
    then show ?thesis by (rule getPlatform_Inl)
  next
    case (Inr r)
    then obtain t1 name where g: "getPlatform drv (platformIds drv i) t = Inr (t1, name)"
      by (cases r) simp
    from Cons.prems g obtain ix1 line where
      r: "listPlatforms drv a is ix1 (t1 @ [Cout line]) = Inl (t', oc)"
      by (auto simp: Let_def)
    from Cons.IH [OF r] obtain es where es: "t' = (t1 @ [Cout line]) @ es" "aborted es oc" by blast
    have "aborted ([DriverCall 45 CL_SUCCESS, DriverCall 47 CL_SUCCESS, Cout line] @ es) oc"
      using es(2) by (intro aborted_append) simp_all
    then show ?thesis using es(1) getPlatform_Inr [OF g] by simp
  qed
qed

lemma enumeratePlatforms_Inr:
  assumes "enumeratePlatforms drv a t = Inr (t', pid)"
  shows "\<exists>es. t' = t @ es \<and> list_all benign es"
proof -
  let ?hd = "[DriverCall 59 CL_SUCCESS, DriverCall 61 CL_SUCCESS, Cout ''OpenCL platforms:'']"
  from assms obtain ix where
    "listPlatforms drv a [0..<unat (numPlatforms drv)] (- 1) (t @ ?hd) = Inr (t', ix)"
    by (auto simp: enumeratePlatforms_def CL_CALL_def Let_def split: if_splits sum.splits)
  from listPlatforms_Inr [OF this] obtain es where "t' = (t @ ?hd) @ es" "list_all benign es"
    by blast
  then have "t' = t @ (?hd @ es) \<and> list_all benign (?hd @ es)" by simp
  then show ?thesis by blast
qed

lemma enumeratePlatforms_Inl:
  assumes "enumeratePlatforms drv a t = Inl (t', oc)"
  shows "\<exists>es. t' = t @ es \<and> aborted es oc"
proof -
  let ?hd = "[DriverCall 59 CL_SUCCESS, DriverCall 61 CL_SUCCESS, Cout ''OpenCL platforms:'']"
  let ?loop = "listPlatforms drv a [0..<unat (numPlatforms drv)] (- 1) (t @ ?hd)"
  consider (a) "numPlatformsErr drv \<noteq> CL_SUCCESS"
    | (b) "numPlatformsErr drv = CL_SUCCESS" "platformIdsErr drv \<noteq> CL_SUCCESS"
    | (c) "numPlatformsErr drv = CL_SUCCESS" "platformIdsErr drv = CL_SUCCESS"
    by blast
  then show ?thesis
  proof cases
    case a
    then have "t' = t @ [DriverCall 59 (numPlatformsErr drv), CoutError 59 (numPlatformsErr drv)]"
      and "oc = Exited"
      using assms by (auto simp: enumeratePlatforms_def CL_CALL_def)
    then show ?thesis using a aborted_CL_CALL by blast
  next
    case b
    then have "t' = t @ ([DriverCall 59 CL_SUCCESS]
                 @ [DriverCall 61 (platformIdsErr drv), CoutError 61 (platformIdsErr drv)])"
      and "oc = Exited"
      using assms by (auto simp: enumeratePlatforms_def CL_CALL_def)
    moreover have "aborted ([DriverCall 59 CL_SUCCESS]
                 @ [DriverCall 61 (platformIdsErr drv), CoutError 61 (platformIdsErr drv)]) Exited"
      using b by (intro aborted_append aborted_CL_CALL) simp_all
    ultimately show ?thesis by blast
  next
    case c
    show ?thesis
    proof (cases ?loop)
      case (Inl r)
      then have "?loop = Inl (t', oc)"
        using assms c by (simp add: enumeratePlatforms_def CL_CALL_def)
      from listPlatforms_Inl [OF this] obtain es where es: "t' = (t @ ?hd) @ es" "aborted es oc"
        by blast
      have "aborted (?hd @ es) oc" using es(2) by (intro aborted_append) simp_all
      then show ?thesis using es(1) by (metis append.assoc)
    next
      case (Inr r)
      then obtain t3 ix where l: "?loop = Inr (t3, ix)" by (cases r) simp
      from listPlatforms_Inr [OF l] obtain es where es: "t3 = (t @ ?hd) @ es" "list_all benign es"
        by blast
      have "t' = t3 \<and> oc = Undefined_Behaviour"
        using assms c l by (auto simp: enumeratePlatforms_def CL_CALL_def Let_def split: if_splits)
      moreover have "aborted (?hd @ es) Undefined_Behaviour"
        using es(2) by (intro aborted_UB) simp
      ultimately show ?thesis using es(1) by (metis append.assoc)
    qed
  qed
qed

lemma selectDevice_Inr:
  assumes "selectDevice drv a pid t = Inr (t', dev)"
  shows "t' = t @ [DriverCall 73 CL_SUCCESS, DriverCall 81 CL_SUCCESS]"
  using assms by (auto simp: selectDevice_def CL_CALL_def split: if_splits)

lemma selectDevice_Inl:
  assumes "selectDevice drv a pid t = Inl (t', oc)"
  shows "(\<exists>es. t' = t @ es \<and> aborted es oc)
         \<or> (oc = Returned (- 1) \<and> numDevicesErr drv pid = CL_SUCCESS
              \<and> numDevices drv pid \<le> deviceId a
              \<and> t' = t @ [DriverCall 73 CL_SUCCESS, Cerr ''Invalid device ID''])"
proof -
  consider (a) "numDevicesErr drv pid \<noteq> CL_SUCCESS"
    | (b) "numDevicesErr drv pid = CL_SUCCESS" "numDevices drv pid \<le> deviceId a"
    | (c) "numDevicesErr drv pid = CL_SUCCESS" "\<not> numDevices drv pid \<le> deviceId a"
          "deviceIdsErr drv pid \<noteq> CL_SUCCESS"
    | (d) "numDevicesErr drv pid = CL_SUCCESS" "\<not> numDevices drv pid \<le> deviceId a"
          "deviceIdsErr drv pid = CL_SUCCESS"
    by blast
  then show ?thesis
  proof cases
    case a
    then have "t' = t @ [DriverCall 73 (numDevicesErr drv pid), CoutError 73 (numDevicesErr drv pid)]"
      and "oc = Exited"
      using assms by (auto simp: selectDevice_def CL_CALL_def)
    then show ?thesis using a aborted_CL_CALL by blast
  next
    case b
    then show ?thesis using assms by (auto simp: selectDevice_def CL_CALL_def)
  next
    case c
    then have "t' = t @ ([DriverCall 73 CL_SUCCESS]
                 @ [DriverCall 81 (deviceIdsErr drv pid), CoutError 81 (deviceIdsErr drv pid)])"
      and "oc = Exited"
      using assms by (auto simp: selectDevice_def CL_CALL_def)
    moreover have "aborted ([DriverCall 73 CL_SUCCESS]
                 @ [DriverCall 81 (deviceIdsErr drv pid), CoutError 81 (deviceIdsErr drv pid)]) Exited"
      using c by (intro aborted_append aborted_CL_CALL) simp_all
    ultimately show ?thesis by blast
  next
    case d
    then have "t' = t @ [DriverCall 73 CL_SUCCESS, DriverCall 81 CL_SUCCESS]"
      and "oc = Undefined_Behaviour"
      using assms by (auto simp: selectDevice_def CL_CALL_def split: if_splits)
    moreover have "aborted [DriverCall 73 CL_SUCCESS, DriverCall 81 CL_SUCCESS] Undefined_Behaviour"
      by (intro aborted_UB) simp
    ultimately show ?thesis by blast
  qed
qed

lemma checkedCalls_Inr:
  "checkedCalls cs t = Inr t' \<Longrightarrow> \<exists>es. t' = t @ es \<and> list_all benign es"
proof (induction cs arbitrary: t)
  case Nil
  then show ?case by simp
next
  case (Cons c cs)
  obtain line err where c: "c = (line, err)" by (cases c)
  from Cons.prems c have e: "err = CL_SUCCESS"
    and r: "checkedCalls cs (t @ [DriverCall line CL_SUCCESS]) = Inr t'"
    by (auto simp: CL_CALL_def split: if_splits)
  from Cons.IH [OF r] obtain es where "t' = (t @ [DriverCall line CL_SUCCESS]) @ es" "list_all benign es"
    by blast
  then have "t' = t @ (DriverCall line CL_SUCCESS # es) \<and> list_all benign (DriverCall line CL_SUCCESS # es)"
    by simp
  then show ?case by blast
qed

lemma checkedCalls_Inl:
  "checkedCalls cs t = Inl (t', oc) \<Longrightarrow> \<exists>es. t' = t @ es \<and> aborted es oc"
proof (induction cs arbitrary: t)
  case Nil
  then show ?case by simp
next
  case (Cons c cs)
  obtain line err where c: "c = (line, err)" by (cases c)
  show ?case
  proof (cases "err = CL_SUCCESS")
    case True
    with Cons.prems c have r: "checkedCalls cs (t @ [DriverCall line CL_SUCCESS]) = Inl (t', oc)"
      by (auto simp: CL_CALL_def)
    from Cons.IH [OF r] obtain es where es: "t' = (t @ [DriverCall line CL_SUCCESS]) @ es" "aborted es oc"
      by blast
    have "aborted ([DriverCall line CL_SUCCESS] @ es) oc" using es(2) by (intro aborted_append) simp_all
    then show ?thesis using es(1) by (metis append.assoc)
  next
    case False
    with Cons.prems c have "t' = t @ [DriverCall line err, CoutError line err]" and "oc = Exited"
      by (auto simp: CL_CALL_def)
    then show ?thesis using False aborted_CL_CALL by blast
  qed
qed

lemma printDeviceInfo_Inr:
  assumes "printDeviceInfo drv a dev t = Inr t'"
  shows "\<exists>es. t' = t @ es \<and> list_all benign es"
proof (cases "showDeviceInfo a")
  case True
  with assms obtain t1 where
    c: "checkedCalls (map (\<lambda>i. (91 + i, deviceInfoErr drv dev i)) [0..<6]) t = Inr t1"
    and t': "t' = t1 @ [CoutDeviceInfo dev]"
    by (auto simp: printDeviceInfo_def split: sum.splits)
  from checkedCalls_Inr [OF c] obtain es where "t1 = t @ es" "list_all benign es" by blast
  then have "t' = t @ (es @ [CoutDeviceInfo dev]) \<and> list_all benign (es @ [CoutDeviceInfo dev])"
    using t' by simp
  then show ?thesis by blast
next
  case False
  with assms have "t' = t @ [] \<and> list_all benign []" by (simp add: printDeviceInfo_def)
  then show ?thesis by blast
qed

lemma printDeviceInfo_Inl:
  assumes "printDeviceInfo drv a dev t = Inl (t', oc)"
  shows "\<exists>es. t' = t @ es \<and> aborted es oc"
proof -
  from assms have "checkedCalls (map (\<lambda>i. (91 + i, deviceInfoErr drv dev i)) [0..<6]) t = Inl (t', oc)"
    by (auto simp: printDeviceInfo_def split: sum.splits if_splits)
  then show ?thesis by (rule checkedCalls_Inl)
qed


lemma deviceSetup_Inr:
  assumes "deviceSetup drv a = Inr (t3, dev)"
  shows "list_all benign t3"
proof -
  from assms obtain t1 pid t2 where
    e: "enumeratePlatforms drv a [] = Inr (t1, pid)"
    and s: "selectDevice drv a pid t1 = Inr (t2, dev)"
    and p: "printDeviceInfo drv a dev t2 = Inr t3"
    by (auto simp: deviceSetup_def split: sum.splits)
  from enumeratePlatforms_Inr [OF e] have "list_all benign t1" by auto
  moreover from printDeviceInfo_Inr [OF p] obtain es where "t3 = t2 @ es" "list_all benign es"
    by blast
  ultimately show ?thesis using selectDevice_Inr [OF s] by simp
qed

lemma deviceSetup_Inl:
  assumes "deviceSetup drv a = Inl (t, oc)"
  shows "aborted t oc
         \<or> (oc = Returned (- 1) \<and> list_all benign t
              \<and> (\<exists>t1 pid. enumeratePlatforms drv a [] = Inr (t1, pid)
                    \<and> numDevicesErr drv pid = CL_SUCCESS \<and> numDevices drv pid \<le> deviceId a
                    \<and> t = t1 @ [DriverCall 73 CL_SUCCESS, Cerr ''Invalid device ID'']))"
proof (cases "enumeratePlatforms drv a []")
  case (Inl r)
  then have "enumeratePlatforms drv a [] = Inl (t, oc)"
    using assms by (simp add: deviceSetup_def)
  from enumeratePlatforms_Inl [OF this] show ?thesis by simp
next
  case (Inr r)
  then obtain t1 pid where e: "enumeratePlatforms drv a [] = Inr (t1, pid)" by (cases r) simp
  from enumeratePlatforms_Inr [OF e] have b1: "list_all benign t1" by auto
  show ?thesis
  proof (cases "selectDevice drv a pid t1")
    case (Inl r2)
    then have s: "selectDevice drv a pid t1 = Inl (t, oc)"
      using assms e by (simp add: deviceSetup_def)
    from selectDevice_Inl [OF s] show ?thesis
    proof
      assume "\<exists>es. t = t1 @ es \<and> aborted es oc"
      then show ?thesis using b1 aborted_append by blast
    next
      assume "oc = Returned (- 1) \<and> numDevicesErr drv pid = CL_SUCCESS
              \<and> numDevices drv pid \<le> deviceId a
              \<and> t = t1 @ [DriverCall 73 CL_SUCCESS, Cerr ''Invalid device ID'']"
      then show ?thesis using b1 e by simp
    qed
  next
    case (Inr r2)
    then obtain t2 dev where s: "selectDevice drv a pid t1 = Inr (t2, dev)" by (cases r2) simp
    have b2: "list_all benign t2" using selectDevice_Inr [OF s] b1 by simp
    have "printDeviceInfo drv a dev t2 = Inl (t, oc)"
      using assms e s by (simp add: deviceSetup_def split: sum.splits)
    from printDeviceInfo_Inl [OF this] show ?thesis using b2 aborted_append by blast
  qed
qed

lemma releases_not_launches: "releases e \<Longrightarrow> \<not> launches e"
  by (cases e) simp_all

lemma benign_not_creates: "benign e \<Longrightarrow> \<not> creates e"
  by (cases e) simp_all

lemma releaseBuffers_releases:
  "releaseBuffers buffers is = Some es \<Longrightarrow> list_all releases es"
  by (induction "is" arbitrary: es) (auto split: if_splits option.splits)

lemma releaseResources_releases:
  "releaseResources c q p k buffers n = Some es \<Longrightarrow> list_all releases es"
  by (auto simp: releaseResources_def split: option.splits dest: releaseBuffers_releases)

lemma releaseResources_no_buffers:
  "releaseResources c q p k [] 0 =
     Some ((if k \<noteq> 0 then [ReleaseKernel k] else [])
         @ (if p \<noteq> 0 then [ReleaseProgram p] else [])
         @ (if q \<noteq> 0 then [ReleaseCommandQueue q] else [])
         @ (if c \<noteq> 0 then [ReleaseContext c] else []))"
  by (simp add: releaseResources_def)

lemma createContextAndQueue_Inr:
  assumes "createContextAndQueue drv dev t = Inr (t', c, q)"
  shows "c = contextHandle drv \<and> q = queueHandle drv \<and> c \<noteq> 0 \<and> q \<noteq> 0
         \<and> t' = t @ [CreateContext dev c, CreateCommandQueue c q]"
  using assms by (auto simp: createContextAndQueue_def Let_def split: if_splits)

lemma createContextAndQueue_Inl:
  assumes "createContextAndQueue drv dev t = Inl (t', oc)"
  shows "oc = Returned (- 1)
         \<and> ((contextHandle drv = 0 \<and> t' = t @ [CreateContext dev 0, CerrCode (contextErr drv)])
            \<or> (contextHandle drv \<noteq> 0 \<and> queueHandle drv = 0
                \<and> t' = t @ [CreateContext dev (contextHandle drv),
                             CreateCommandQueue (contextHandle drv) 0,
                             CerrCode (queueErr drv), ReleaseContext (contextHandle drv)]))"
  using assms
  by (auto simp: createContextAndQueue_def Let_def releaseResources_no_buffers releaseAndReturn_def
           split: if_splits)

lemma buildKernel_Inr:
  assumes "buildKernel drv dev c q t = Inr (t', p, k)"
  shows "p = programHandle drv \<and> k = kernelHandle drv \<and> p \<noteq> 0 \<and> k \<noteq> 0
         \<and> (\<exists>src. t' = t @ [CreateProgramWithSource src p, BuildProgram p CL_SUCCESS, CreateKernel p k])"
  using assms by (auto simp: buildKernel_def Let_def split: if_splits option.splits)

lemma buildKernel_Inl:
  assumes "buildKernel drv dev c q t = Inl (t', oc)"
  shows "(oc = Returned (- 1) \<or> oc = Undefined_Behaviour)
         \<and> (\<exists>es. t' = t @ es \<and> list_all (\<lambda>e. \<not> launches e) es)"
  using assms
  by (auto simp: buildKernel_def Let_def releaseResources_no_buffers releaseAndReturn_def
           split: if_splits option.splits)


lemma releaseBuffers_indices:
  "\<forall>i\<in>set is. i < length buffers \<Longrightarrow>
     releaseBuffers buffers is
       = Some (map ReleaseMemObject (filter (\<lambda>b. b \<noteq> 0) (map (nth buffers) is)))"
  by (induction "is") simp_all

lemma map_nth_upt_take:
  assumes "n \<le> length xs"
  shows "map (nth xs) [0..<n] = take n xs"
proof -
  have "take n xs = take n (map (nth xs) [0..<length xs])" by (simp add: map_nth)
  also have "\<dots> = map (nth xs) (take n [0..<length xs])" by (simp add: take_map)
  also have "take n [0..<length xs] = [0..<n]" using assms by simp
  finally show ?thesis by simp
qed

lemma releaseResources_explicit:
  assumes "nat n \<le> length buffers"
  shows "releaseResources c q p k buffers n =
     Some (map ReleaseMemObject (filter (\<lambda>b. b \<noteq> 0) (take (nat n) buffers))
         @ (if k \<noteq> 0 then [ReleaseKernel k] else [])
         @ (if p \<noteq> 0 then [ReleaseProgram p] else [])
         @ (if q \<noteq> 0 then [ReleaseCommandQueue q] else [])
         @ (if c \<noteq> 0 then [ReleaseContext c] else []))"
proof -
  have "\<forall>i\<in>set [0..<nat n]. i < length buffers" using assms by auto
  from releaseBuffers_indices [OF this] show ?thesis
    using assms by (simp add: releaseResources_def map_nth_upt_take)
qed

lemma foldl_or_zero:
  fixes w :: "'a::len word"
  shows "foldl (OR) w xs = 0 \<Longrightarrow> w = 0"
proof (induction xs arbitrary: w)
  case Nil
  then show ?case by simp
next
  case (Cons x xs)
  then have "w OR x = 0" by simp
  then show ?case by (simp add: or_eq_0_iff)
qed

lemma bindBuffers_Inr:
  assumes "bindBuffers drv c q p k t = Inr (t', buffers)"
  shows "buffers = map (bufferHandle drv) [0..<4] \<and> 0 \<notin> set buffers
         \<and> writeFoundErr drv = CL_SUCCESS
         \<and> t' = t @ map (\<lambda>i. CreateBuffer i (bufferHandle drv i)) [0..<4]
                  @ [EnqueueWriteBuffer (bufferHandle drv 1) True 0 CL_SUCCESS]
                  @ map (\<lambda>i. SetKernelArg i (setArgErr drv i)) [0..<9]"
proof -
  from assms have z: "foldl (OR) (writeFoundErr drv) (map (setArgErr drv) [0..<9]) = 0"
    by (auto simp: bindBuffers_def Let_def split: if_splits)
  have w: "writeFoundErr drv = 0" using z by (rule foldl_or_zero)
  show ?thesis using assms w
    by (auto simp: bindBuffers_def Let_def split: if_splits)
qed

lemma bindBuffers_Inl:
  assumes "bindBuffers drv c q p k t = Inl (t', oc)"
  shows "oc = Returned (- 1) \<and> (\<exists>es. t' = t @ es \<and> list_all (\<lambda>e. \<not> launches e) es)"
proof -
  let ?bufs = "map (bufferHandle drv) [0..<4]"
  have "nat 4 \<le> length ?bufs" by simp
  from releaseResources_explicit [OF this]
  obtain es where r: "releaseResources c q p k ?bufs 4 = Some es" by blast
  have q: "list_all (\<lambda>e. \<not> launches e) es"
    using releaseResources_releases [OF r] by (auto simp: list_all_iff dest: releases_not_launches)
  have l: "list_all (\<lambda>e. \<not> launches e) (map (\<lambda>i. CreateBuffer i (bufferHandle drv i)) [0..<4])"
    and l2: "list_all (\<lambda>e. \<not> launches e) (map (\<lambda>i. SetKernelArg i (setArgErr drv i)) [0..<9])"
    by (simp_all add: list_all_iff)
  show ?thesis
  proof (cases "0 \<in> set ?bufs")
    case True
    with assms r have "oc = Returned (- 1)"
      and "t' = t @ (map (\<lambda>i. CreateBuffer i (bufferHandle drv i)) [0..<4]
                     @ [Cerr ''Error allocating buffer.''] @ es)"
      by (auto simp: bindBuffers_def Let_def releaseAndReturn_def)
    moreover have "list_all (\<lambda>e. \<not> launches e) (map (\<lambda>i. CreateBuffer i (bufferHandle drv i)) [0..<4]
                     @ [Cerr ''Error allocating buffer.''] @ es)"
      using q l by simp
    ultimately show ?thesis by blast
  next
    case False
    let ?err = "foldl (OR) (writeFoundErr drv) (map (setArgErr drv) [0..<9])"
    from False assms r have "oc = Returned (- 1)"
      and "t' = t @ (map (\<lambda>i. CreateBuffer i (bufferHandle drv i)) [0..<4]
                     @ [EnqueueWriteBuffer (?bufs ! 1) True 0 (writeFoundErr drv)]
                     @ map (\<lambda>i. SetKernelArg i (setArgErr drv i)) [0..<9]
                     @ [CerrCode ?err] @ es)"
      by (auto simp: bindBuffers_def Let_def releaseAndReturn_def split: if_splits)
    moreover have "list_all (\<lambda>e. \<not> launches e) (map (\<lambda>i. CreateBuffer i (bufferHandle drv i)) [0..<4]
                     @ [EnqueueWriteBuffer (?bufs ! 1) True 0 (writeFoundErr drv)]
                     @ map (\<lambda>i. SetKernelArg i (setArgErr drv i)) [0..<9]
                     @ [CerrCode ?err] @ es)"
      using q l l2 by simp
    ultimately show ?thesis by blast
  qed
qed


lemma dispatch_Returned:
  assumes "outcome (dispatch drv a dev c q p k bufs t) = Returned r"
  shows "r = - 1 \<or> (r = foundValue drv \<and> enqueueErr drv = CL_SUCCESS \<and> readFoundErr drv = CL_SUCCESS)"
  using assms
  by (auto simp: dispatch_def Let_def stop_def CL_CALL_def releaseAndReturn_def
           split: option.splits if_splits sum.splits)

lemma dispatch_found:
  assumes "outcome (dispatch drv a dev c q p k bufs t) = Returned 1"
  shows "hostOutput (dispatch drv a dev c q p k bufs t)
           = map (deviceOutput drv) [0..<32] @ drop 32 (output_buf a)
         \<and> hostNonce (dispatch drv a dev c q p k bufs t) = deviceNonce drv"
  using assms
  by (auto simp: dispatch_def Let_def stop_def CL_CALL_def releaseAndReturn_def
           simp del: upt_rec_numeral
           split: option.splits if_splits sum.splits)

lemma dispatch_trace:
  "trace (dispatch drv a dev c q p k bufs t) = t
   \<or> (\<exists>g l e rest. trace (dispatch drv a dev c q p k bufs t) = t @ EnqueueNDRangeKernel g l e # rest
        \<and> list_all (\<lambda>e. \<not> launches e) rest)"
proof (cases "releaseResources c q p k bufs 4")
  case None
  then show ?thesis
    by (auto simp: dispatch_def Let_def stop_def CL_CALL_def releaseAndReturn_def
           split: option.splits if_splits sum.splits)
next
  case (Some es)
  have "list_all (\<lambda>e. \<not> launches e) es"
    using releaseResources_releases [OF Some] by (auto simp: list_all_iff dest: releases_not_launches)
  then show ?thesis using Some
    by (auto simp: dispatch_def Let_def stop_def CL_CALL_def releaseAndReturn_def
           split: option.splits if_splits sum.splits)
qed

lemma dispatch_completed:
  assumes "outcome (dispatch drv a dev c q p k bufs t) = Returned r" and "r \<noteq> - 1"
  shows "\<exists>g l rest. trace (dispatch drv a dev c q p k bufs t)
           = t @ [EnqueueNDRangeKernel g l CL_SUCCESS, Finish, DriverCall 203 CL_SUCCESS] @ rest"
  using assms
  by (auto simp: dispatch_def Let_def stop_def CL_CALL_def releaseAndReturn_def
           split: option.splits if_splits sum.splits)

lemma fatal_tail_passive:
  "fatal_tail es \<Longrightarrow> list_all (\<lambda>e. \<not> launches e \<and> \<not> creates e \<and> \<not> releases e) es"
proof (induction es)
  case Nil
  then show ?case by simp
next
  case (Cons e es)
  then show ?case by (cases e) (auto split: if_splits)
qed

lemma benign_passive:
  "list_all benign es \<Longrightarrow> list_all (\<lambda>e. \<not> launches e \<and> \<not> creates e \<and> \<not> releases e) es"
proof (induction es)
  case Nil
  then show ?case by simp
next
  case (Cons e es)
  then show ?case by (cases e) auto
qed

lemma aborted_passive:
  "aborted es oc \<Longrightarrow> list_all (\<lambda>e. \<not> launches e \<and> \<not> creates e \<and> \<not> releases e) es"
  by (auto simp: aborted_def dest: fatal_tail_passive benign_passive)

lemma aborted_not_Returned: "aborted es oc \<Longrightarrow> oc \<noteq> Returned r"
  by (auto simp: aborted_def)

lemma contextSetup_Inr:
  assumes "contextSetup drv a = Inr (t4, dev, c, q)"
  shows "\<exists>t3. deviceSetup drv a = Inr (t3, dev) \<and> list_all benign t3
           \<and> t4 = t3 @ [CreateContext dev c, CreateCommandQueue c q]
           \<and> c = contextHandle drv \<and> q = queueHandle drv \<and> c \<noteq> 0 \<and> q \<noteq> 0"
proof -
  from assms obtain t3 where d: "deviceSetup drv a = Inr (t3, dev)"
    and cq: "createContextAndQueue drv dev t3 = Inr (t4, c, q)"
    by (auto simp: contextSetup_def split: sum.splits)
  show ?thesis using d deviceSetup_Inr [OF d] createContextAndQueue_Inr [OF cq] by simp
qed

lemma contextSetup_Inl:
  assumes "contextSetup drv a = Inl (t, oc)"
  shows "deviceSetup drv a = Inl (t, oc)
         \<or> (\<exists>t3 dev. deviceSetup drv a = Inr (t3, dev)
               \<and> createContextAndQueue drv dev t3 = Inl (t, oc))"
  using assms by (auto simp: contextSetup_def split: sum.splits)

lemma contextSetup_Inl_facts:
  assumes "contextSetup drv a = Inl (t, oc)"
  shows "list_all (\<lambda>e. \<not> launches e) t" and "oc = Returned r \<Longrightarrow> r = - 1"
proof -
  from contextSetup_Inl [OF assms]
  have "list_all (\<lambda>e. \<not> launches e) t \<and> (oc = Returned r \<longrightarrow> r = - 1)"
  proof
    assume d: "deviceSetup drv a = Inl (t, oc)"
    from deviceSetup_Inl [OF d] show ?thesis
    proof
      assume "aborted t oc"
      then show ?thesis
        using aborted_passive [of t oc] aborted_not_Returned [of t oc r] by (auto simp: list_all_iff)
    next
      assume "oc = Returned (- 1) \<and> list_all benign t
              \<and> (\<exists>t1 pid. enumeratePlatforms drv a [] = Inr (t1, pid)
                    \<and> numDevicesErr drv pid = CL_SUCCESS \<and> numDevices drv pid \<le> deviceId a
                    \<and> t = t1 @ [DriverCall 73 CL_SUCCESS, Cerr ''Invalid device ID''])"
      then show ?thesis using benign_passive [of t] by (auto simp: list_all_iff)
    qed
  next
    assume "\<exists>t3 dev. deviceSetup drv a = Inr (t3, dev)
               \<and> createContextAndQueue drv dev t3 = Inl (t, oc)"
    then obtain t3 dev where d: "deviceSetup drv a = Inr (t3, dev)"
      and c: "createContextAndQueue drv dev t3 = Inl (t, oc)" by blast
    have "list_all (\<lambda>e. \<not> launches e) t3"
      using benign_passive [OF deviceSetup_Inr [OF d]] by (auto simp: list_all_iff)
    then show ?thesis using createContextAndQueue_Inl [OF c] by auto
  qed
  then show "list_all (\<lambda>e. \<not> launches e) t" and "oc = Returned r \<Longrightarrow> r = - 1" by blast+
qed

lemma executeKernel_cases:
  obtains
    (at_setup) t oc where "contextSetup drv a = Inl (t, oc)" "executeKernel drv a = stop a (t, oc)"
  | (at_build) t4 dev c q t oc where "contextSetup drv a = Inr (t4, dev, c, q)"
      "buildKernel drv dev c q t4 = Inl (t, oc)" "executeKernel drv a = stop a (t, oc)"
  | (at_bind) t4 dev c q t5 p k t oc where "contextSetup drv a = Inr (t4, dev, c, q)"
      "buildKernel drv dev c q t4 = Inr (t5, p, k)" "bindBuffers drv c q p k t5 = Inl (t, oc)"
      "executeKernel drv a = stop a (t, oc)"
  | (at_run) t4 dev c q t5 p k t6 bufs where "contextSetup drv a = Inr (t4, dev, c, q)"
      "buildKernel drv dev c q t4 = Inr (t5, p, k)" "bindBuffers drv c q p k t5 = Inr (t6, bufs)"
      "executeKernel drv a = dispatch drv a dev c q p k bufs t6"
proof (cases "contextSetup drv a")
  case (Inl r)
  then show ?thesis using at_setup [of "fst r" "snd r"] by (simp add: executeKernel_def)
next
  case (Inr x)
  then obtain t4 dev c q where cs: "contextSetup drv a = Inr (t4, dev, c, q)"
    by (cases x) auto
  show ?thesis
  proof (cases "buildKernel drv dev c q t4")
    case (Inl r)
    then show ?thesis using at_build [of t4 dev c q "fst r" "snd r"] cs by (simp add: executeKernel_def)
  next
    case (Inr y)
    then obtain t5 p k where bk: "buildKernel drv dev c q t4 = Inr (t5, p, k)" by (cases y) auto
    show ?thesis
    proof (cases "bindBuffers drv c q p k t5")
      case (Inl r)
      then show ?thesis using at_bind [of t4 dev c q t5 p k "fst r" "snd r"] cs bk
        by (simp add: executeKernel_def)
    next
      case (Inr z)
      then obtain t6 bufs where "bindBuffers drv c q p k t5 = Inr (t6, bufs)" by (cases z) auto
      then show ?thesis using at_run [of t4 dev c q t5 p k t6 bufs] cs bk
        by (simp add: executeKernel_def)
    qed
  qed
qed

lemma stop_simps:
  "trace (stop a (t, oc)) = t" "outcome (stop a (t, oc)) = oc"
  "hostOutput (stop a (t, oc)) = output_buf a" "hostNonce (stop a (t, oc)) = validNonce a"
  by (simp_all add: stop_def)

section \<open>The caller's output storage\<close>

lemma dispatch_unchanged:
  assumes "outcome (dispatch drv a dev c q p k bufs t) = Returned r" and "r \<noteq> 1"
  shows "hostOutput (dispatch drv a dev c q p k bufs t) = output_buf a
         \<and> hostNonce (dispatch drv a dev c q p k bufs t) = validNonce a"
  using assms
  by (auto simp: dispatch_def Let_def stop_def CL_CALL_def releaseAndReturn_def
           split: option.splits if_splits sum.splits)

lemma dispatch_changed:
  assumes "hostOutput (dispatch drv a dev c q p k bufs t) \<noteq> output_buf a
           \<or> hostNonce (dispatch drv a dev c q p k bufs t) \<noteq> validNonce a"
  shows "foundValue drv = 1
         \<and> (\<exists>g l rest. trace (dispatch drv a dev c q p k bufs t)
              = t @ [EnqueueNDRangeKernel g l CL_SUCCESS, Finish, DriverCall 203 CL_SUCCESS] @ rest)"
  using assms
  by (auto simp: dispatch_def Let_def stop_def CL_CALL_def releaseAndReturn_def
           split: option.splits if_splits sum.splits)

text \<open>
  Claim C5: the caller's digest buffer and nonce are written only when the found flag
  reads back as 1 after the device has completed; on every call that returns a value
  other than 1 (so on every call that returns -1 or 0) both are unchanged.
\<close>

theorem outputs_written_only_when_found:
  "(outcome (executeKernel drv a) = Returned r \<and> r \<noteq> 1 \<longrightarrow>
      hostOutput (executeKernel drv a) = output_buf a
      \<and> hostNonce (executeKernel drv a) = validNonce a)
   \<and> (hostOutput (executeKernel drv a) \<noteq> output_buf a
        \<or> hostNonce (executeKernel drv a) \<noteq> validNonce a \<longrightarrow>
      foundValue drv = 1
      \<and> (\<exists>pre g l rest. trace (executeKernel drv a)
            = pre @ [EnqueueNDRangeKernel g l CL_SUCCESS, Finish, DriverCall 203 CL_SUCCESS] @ rest))"
proof (cases rule: executeKernel_cases [of drv a])
  case (at_setup t oc)
  then show ?thesis by (simp add: stop_simps)
next
  case (at_build t4 dev c q t oc)
  then show ?thesis by (simp add: stop_simps)
next
  case (at_bind t4 dev c q t5 p k t oc)
  then show ?thesis by (simp add: stop_simps)
next
  case (at_run t4 dev c q t5 p k t6 bufs)
  show ?thesis unfolding at_run(4)
    using dispatch_unchanged [of drv a dev c q p k bufs t6 r]
      dispatch_changed [of drv a dev c q p k bufs t6]
    by blast
qed

theorem outputs_written_only_when_found_witness:
  "outcome (executeKernel demoDriver demoArgs) = Returned 0
   \<and> hostOutput (executeKernel demoDriver demoArgs) = output_buf demoArgs
   \<and> hostNonce (executeKernel demoDriver demoArgs) = validNonce demoArgs
   \<and> hostNonce (executeKernel (demoDriver\<lparr>foundValue := 1\<rparr>) demoArgs) \<noteq> validNonce demoArgs
   \<and> foundValue (demoDriver\<lparr>foundValue := 1\<rparr>) = 1"
proof -
  have o: "outcome (executeKernel demoDriver demoArgs) = Returned 0"
    by code_simp
  have n: "hostNonce (executeKernel (demoDriver\<lparr>foundValue := 1\<rparr>) demoArgs) \<noteq> validNonce demoArgs"
    by code_simp
  show ?thesis
    using o n outputs_written_only_when_found [of demoDriver demoArgs 0]
      outputs_written_only_when_found [of "demoDriver\<lparr>foundValue := 1\<rparr>" demoArgs 0]
    by simp
qed

section \<open>Releasing resources\<close>

text \<open>
  Claim C4, as stated: each handle is released only if it is non-null, in the order
  buffers, kernel, program, queue, context, also for a partially populated set, and a
  second call on the same set is idempotent, with no double release. The handles are
  passed by value and never cleared, so the second call releases every non-null handle
  once more.
\<close>

theorem release_twice_counterexample:
  "releaseResources 31 32 33 34 [41, 42, 0, 0] 4
     = Some [ReleaseMemObject 41, ReleaseMemObject 42, ReleaseKernel 34, ReleaseProgram 33,
             ReleaseCommandQueue 32, ReleaseContext 31]
   \<and> releaseResourcesTwice 31 32 33 34 [41, 42, 0, 0] 4
     = Some [ReleaseMemObject 41, ReleaseMemObject 42, ReleaseKernel 34, ReleaseProgram 33,
             ReleaseCommandQueue 32, ReleaseContext 31,
             ReleaseMemObject 41, ReleaseMemObject 42, ReleaseKernel 34, ReleaseProgram 33,
             ReleaseCommandQueue 32, ReleaseContext 31]
   \<and> releaseResourcesTwice 31 32 33 34 [41, 42, 0, 0] 4
       \<noteq> releaseResources 31 32 33 34 [41, 42, 0, 0] 4"
  by code_simp

text \<open>
  Claim C4, amended: \<^verbatim>\<open>releaseResources\<close> releases each handle only if it is non-null, in
  the fixed order buffers, then kernel, then program, then queue, then context; with a
  partially populated set it releases exactly the non-null handles among the first
  \<open>bufferCount\<close> buffers. A second call on the same set issues the same releases again:
  it is without effect only when every handle of the set is null.
\<close>

theorem release_order:
  assumes "nat bufferCount \<le> length buffers"
  shows "\<exists>es. releaseResources c q p k buffers bufferCount = Some es
    \<and> es = map ReleaseMemObject (filter (\<lambda>b. b \<noteq> 0) (take (nat bufferCount) buffers))
           @ map ReleaseKernel (filter (\<lambda>h. h \<noteq> 0) [k])
           @ map ReleaseProgram (filter (\<lambda>h. h \<noteq> 0) [p])
           @ map ReleaseCommandQueue (filter (\<lambda>h. h \<noteq> 0) [q])
           @ map ReleaseContext (filter (\<lambda>h. h \<noteq> 0) [c])
    \<and> releaseResourcesTwice c q p k buffers bufferCount = Some (es @ es)
    \<and> (releaseResourcesTwice c q p k buffers bufferCount
          = releaseResources c q p k buffers bufferCount
        \<longleftrightarrow> k = 0 \<and> p = 0 \<and> q = 0 \<and> c = 0 \<and> (\<forall>b \<in> set (take (nat bufferCount) buffers). b = 0))"
proof -
  let ?es = "map ReleaseMemObject (filter (\<lambda>b. b \<noteq> 0) (take (nat bufferCount) buffers))
           @ map ReleaseKernel (filter (\<lambda>h. h \<noteq> 0) [k])
           @ map ReleaseProgram (filter (\<lambda>h. h \<noteq> 0) [p])
           @ map ReleaseCommandQueue (filter (\<lambda>h. h \<noteq> 0) [q])
           @ map ReleaseContext (filter (\<lambda>h. h \<noteq> 0) [c])"
  have r: "releaseResources c q p k buffers bufferCount = Some ?es"
    using releaseResources_explicit [OF assms, of c q p k] by simp
  then have t: "releaseResourcesTwice c q p k buffers bufferCount = Some (?es @ ?es)"
    by (simp add: releaseResourcesTwice_def)
  have "?es @ ?es = ?es \<longleftrightarrow> ?es = []" by simp
  also have "\<dots> \<longleftrightarrow> k = 0 \<and> p = 0 \<and> q = 0 \<and> c = 0
      \<and> (\<forall>b \<in> set (take (nat bufferCount) buffers). b = 0)"
    by (auto simp: filter_empty_conv)
  finally show ?thesis using r t by simp
qed

theorem release_order_witness:
  "nat 4 \<le> length [41, 42, 0, 0 :: handle]
   \<and> releaseResources 31 32 0 0 [41, 42, 0, 0] 4
       = Some [ReleaseMemObject 41, ReleaseMemObject 42, ReleaseCommandQueue 32, ReleaseContext 31]
   \<and> releaseResourcesTwice 0 0 0 0 [0, 0, 0, 0] 4 = releaseResources 0 0 0 0 [0, 0, 0, 0] 4"
  using release_order [of 4 "[41, 42, 0, 0]" 31 32 0 0] release_order [of 4 "[0, 0, 0, 0]" 0 0 0 0]
  by simp

section \<open>The device index\<close>

lemma rejected_at_device_check:
  assumes "enumeratePlatforms drv a [] = Inr (t1, platformId)"
    and "numDevicesErr drv platformId = CL_SUCCESS"
    and "numDevices drv platformId \<le> deviceId a"
  shows "outcome (executeKernel drv a) = Returned (- 1)
    \<and> trace (executeKernel drv a) = t1 @ [DriverCall 73 CL_SUCCESS, Cerr ''Invalid device ID'']
    \<and> list_all (\<lambda>e. \<not> creates e) (trace (executeKernel drv a))"
proof -
  have "selectDevice drv a platformId t1
          = Inl (t1 @ [DriverCall 73 CL_SUCCESS, Cerr ''Invalid device ID''], Returned (- 1))"
    using assms(2,3) by (simp add: selectDevice_def CL_CALL_def)
  then have e: "executeKernel drv a
          = stop a (t1 @ [DriverCall 73 CL_SUCCESS, Cerr ''Invalid device ID''], Returned (- 1))"
    using assms(1) by (simp add: executeKernel_def contextSetup_def deviceSetup_def)
  from enumeratePlatforms_Inr [OF assms(1)] have "list_all benign t1" by auto
  then have "list_all (\<lambda>e. \<not> creates e) t1"
    by (auto simp: list_all_iff dest: benign_not_creates)
  then show ?thesis using e by (simp add: stop_simps)
qed

lemma uint_eq_sint_nonneg:
  fixes w :: "32 word"
  assumes "0 \<le> sint w"
  shows "uint w = sint w"
proof -
  have "sint w < 2 ^ 31" using sint_lt [of w] by simp
  then have "sint w < 2 ^ 32" by (rule less_trans) simp
  then have "take_bit 32 (sint w) = sint w" using assms by (simp add: take_bit_int_eq_self)
  moreover have "uint w = take_bit 32 (sint w)" using uint_sint [of w] by simp
  ultimately show ?thesis by simp
qed

lemma uint_negative_ge:
  fixes w :: "32 word"
  assumes "sint w < 0"
  shows "2 ^ 31 \<le> uint w"
proof -
  have lo: "- (2 ^ 31) \<le> sint w" using sint_ge [of w] by simp
  have "uint w = take_bit 32 (sint w)" using uint_sint [of w] by simp
  also have "\<dots> = sint w mod 2 ^ 32" by (simp add: take_bit_eq_mod)
  also have "\<dots> = (sint w + 2 ^ 32) mod 2 ^ 32" by simp
  also have "\<dots> = sint w + 2 ^ 32" using lo assms by (intro mod_pos_pos_trivial) simp_all
  finally show ?thesis using lo by simp
qed

lemma demo_enumeratePlatforms:
  "enumeratePlatforms demoDriver (demoArgs\<lparr>deviceId := d\<rparr>) []
      = Inr ([DriverCall 59 CL_SUCCESS, DriverCall 61 CL_SUCCESS, Cout ''OpenCL platforms:'',
              DriverCall 45 CL_SUCCESS, DriverCall 47 CL_SUCCESS, Cout ''    [ ] GPU''], 11)"
  by (simp add: enumeratePlatforms_def CL_CALL_def getPlatform_def demoDriver_def demoArgs_def Let_def)

text \<open>
  Claim C6: when the platform enumeration has succeeded and the GPU count has been
  obtained, a device index at or beyond the count makes \<^verbatim>\<open>executeKernel\<close> return -1 at
  once: the trace ends with the count query and the message, and no context, queue,
  program, kernel or buffer has been created.
\<close>

theorem invalid_device_index_rejected:
  assumes "enumeratePlatforms drv a [] = Inr (t1, platformId)"
    and "numDevicesErr drv platformId = CL_SUCCESS"
    and "0 \<le> sint (deviceId a)"
    and "uint (numDevices drv platformId) \<le> sint (deviceId a)"
  shows "outcome (executeKernel drv a) = Returned (- 1)
    \<and> trace (executeKernel drv a) = t1 @ [DriverCall 73 CL_SUCCESS, Cerr ''Invalid device ID'']
    \<and> list_all (\<lambda>e. \<not> creates e) (trace (executeKernel drv a))"
proof -
  have "uint (numDevices drv platformId) \<le> uint (deviceId a)"
    using assms(3,4) by (simp add: uint_eq_sint_nonneg)
  then have "numDevices drv platformId \<le> deviceId a" by (simp add: word_le_def)
  with assms(1,2) show ?thesis by (rule rejected_at_device_check)
qed

theorem invalid_device_index_rejected_witness:
  "outcome (executeKernel demoDriver (demoArgs\<lparr>deviceId := 1\<rparr>)) = Returned (- 1)
   \<and> trace (executeKernel demoDriver (demoArgs\<lparr>deviceId := 1\<rparr>))
       = [DriverCall 59 CL_SUCCESS, DriverCall 61 CL_SUCCESS, Cout ''OpenCL platforms:'',
          DriverCall 45 CL_SUCCESS, DriverCall 47 CL_SUCCESS, Cout ''    [ ] GPU'',
          DriverCall 73 CL_SUCCESS, Cerr ''Invalid device ID'']"
proof -
  have 2: "numDevicesErr demoDriver 11 = CL_SUCCESS" by (simp add: demoDriver_def)
  have 3: "0 \<le> sint (deviceId (demoArgs\<lparr>deviceId := 1\<rparr>))" by (simp add: demoArgs_def)
  have 4: "uint (numDevices demoDriver 11) \<le> sint (deviceId (demoArgs\<lparr>deviceId := 1\<rparr>))"
    by (simp add: demoArgs_def demoDriver_def)
  show ?thesis using invalid_device_index_rejected [OF demo_enumeratePlatforms 2 3 4] by simp
qed

text \<open>
  Claim C9, as stated: every negative device index is rejected by the check of line 75.
  The check compares 32-bit unsigned values: \<^verbatim>\<open>INT_MIN\<close> converts to \<open>2 ^ 31\<close>, which is
  below a device count of \<open>2 ^ 31 + 1\<close>, so the check passes and line 82 indexes the
  device vector with a negative index.
\<close>

theorem negative_device_index_counterexample:
  "sint (deviceId (demoArgs\<lparr>deviceId := 0x80000000\<rparr>)) < 0
   \<and> outcome (executeKernel (demoDriver\<lparr>numDevices := (\<lambda>p. 0x80000001)\<rparr>)
                 (demoArgs\<lparr>deviceId := 0x80000000\<rparr>)) = Undefined_Behaviour
   \<and> trace (executeKernel (demoDriver\<lparr>numDevices := (\<lambda>p. 0x80000001)\<rparr>)
                 (demoArgs\<lparr>deviceId := 0x80000000\<rparr>))
       = [DriverCall 59 CL_SUCCESS, DriverCall 61 CL_SUCCESS, Cout ''OpenCL platforms:'',
          DriverCall 45 CL_SUCCESS, DriverCall 47 CL_SUCCESS, Cout ''    [ ] GPU'',
          DriverCall 73 CL_SUCCESS, DriverCall 81 CL_SUCCESS]"
  by code_simp

text \<open>
  Claim C9, amended: for every negative device index and a device count of at most
  \<open>2 ^ 31\<close>, \<^verbatim>\<open>executeKernel\<close> returns -1 with no device resource created: the index
  converts to an unsigned value of at least \<open>2 ^ 31\<close>, which the check of line 75 rejects.
\<close>

theorem negative_device_index_rejected:
  assumes "enumeratePlatforms drv a [] = Inr (t1, platformId)"
    and "numDevicesErr drv platformId = CL_SUCCESS"
    and "sint (deviceId a) < 0"
    and "uint (numDevices drv platformId) \<le> 2 ^ 31"
  shows "outcome (executeKernel drv a) = Returned (- 1)
    \<and> trace (executeKernel drv a) = t1 @ [DriverCall 73 CL_SUCCESS, Cerr ''Invalid device ID'']
    \<and> list_all (\<lambda>e. \<not> creates e) (trace (executeKernel drv a))"
proof -
  have "uint (numDevices drv platformId) \<le> uint (deviceId a)"
    using assms(4) uint_negative_ge [OF assms(3)] by linarith
  then have "numDevices drv platformId \<le> deviceId a" by (simp add: word_le_def)
  with assms(1,2) show ?thesis by (rule rejected_at_device_check)
qed

theorem negative_device_index_rejected_witness:
  "outcome (executeKernel demoDriver (demoArgs\<lparr>deviceId := - 1\<rparr>)) = Returned (- 1)
   \<and> trace (executeKernel demoDriver (demoArgs\<lparr>deviceId := - 1\<rparr>))
       = [DriverCall 59 CL_SUCCESS, DriverCall 61 CL_SUCCESS, Cout ''OpenCL platforms:'',
          DriverCall 45 CL_SUCCESS, DriverCall 47 CL_SUCCESS, Cout ''    [ ] GPU'',
          DriverCall 73 CL_SUCCESS, Cerr ''Invalid device ID'']"
proof -
  have 2: "numDevicesErr demoDriver 11 = CL_SUCCESS" by (simp add: demoDriver_def)
  have 3: "sint (deviceId (demoArgs\<lparr>deviceId := - 1\<rparr>)) < 0" by (simp add: demoArgs_def)
  have 4: "uint (numDevices demoDriver 11) \<le> 2 ^ 31"
    by (simp add: demoDriver_def)
  show ?thesis using negative_device_index_rejected [OF demo_enumeratePlatforms 2 3 4] by simp
qed

section \<open>The found flag is cleared before the launch\<close>

lemma split_at_launch:
  assumes "pre @ e # post = t @ e' # rest" and "launches e"
    and "list_all (\<lambda>x. \<not> launches x) t" and "list_all (\<lambda>x. \<not> launches x) rest"
  shows "pre = t"
  using assms
  by (auto simp: append_eq_append_conv2 append_eq_Cons_conv Cons_eq_append_conv list_all_iff)

lemma no_launch_no_split:
  assumes "t = pre @ e # post" and "launches e" and "list_all (\<lambda>x. \<not> launches x) t"
  shows False
  using assms by (auto simp: list_all_iff)

text \<open>
  Claim C8: wherever the kernel enqueue occurs in the trace of a call, the events before
  it contain the blocking write of 0 into the found-flag buffer (the buffer created at
  position 1), returned with \<^verbatim>\<open>CL_SUCCESS\<close>; the enqueue occurs at most once.
\<close>

theorem found_flag_cleared_before_launch:
  assumes "trace (executeKernel drv a) = pre @ EnqueueNDRangeKernel g l err # post"
  shows "EnqueueWriteBuffer (bufferHandle drv 1) True 0 CL_SUCCESS \<in> set pre
         \<and> CreateBuffer 1 (bufferHandle drv 1) \<in> set pre
         \<and> list_all (\<lambda>e. \<not> launches e) pre \<and> list_all (\<lambda>e. \<not> launches e) post"
proof (cases rule: executeKernel_cases [of drv a])
  case (at_setup t oc)
  then have "t = pre @ EnqueueNDRangeKernel g l err # post" using assms by (simp add: stop_simps)
  from no_launch_no_split [OF this _ contextSetup_Inl_facts(1) [OF at_setup(1)]]
  show ?thesis by simp
next
  case (at_build t4 dev c q t oc)
  from contextSetup_Inr [OF at_build(1)] obtain t3 where
    "list_all benign t3" "t4 = t3 @ [CreateContext dev c, CreateCommandQueue c q]" by blast
  then have q4: "list_all (\<lambda>e. \<not> launches e) t4"
    using benign_passive [of t3] by (auto simp: list_all_iff)
  from buildKernel_Inl [OF at_build(2)] q4 have "list_all (\<lambda>e. \<not> launches e) t" by auto
  moreover have "t = pre @ EnqueueNDRangeKernel g l err # post"
    using at_build(3) assms by (simp add: stop_simps)
  ultimately show ?thesis using no_launch_no_split by fastforce
next
  case (at_bind t4 dev c q t5 p k t oc)
  from contextSetup_Inr [OF at_bind(1)] obtain t3 where
    "list_all benign t3" "t4 = t3 @ [CreateContext dev c, CreateCommandQueue c q]" by blast
  then have q4: "list_all (\<lambda>e. \<not> launches e) t4"
    using benign_passive [of t3] by (auto simp: list_all_iff)
  from buildKernel_Inr [OF at_bind(2)] q4 have q5: "list_all (\<lambda>e. \<not> launches e) t5" by auto
  from bindBuffers_Inl [OF at_bind(3)] q5 have "list_all (\<lambda>e. \<not> launches e) t" by auto
  moreover have "t = pre @ EnqueueNDRangeKernel g l err # post"
    using at_bind(4) assms by (simp add: stop_simps)
  ultimately show ?thesis using no_launch_no_split by fastforce
next
  case (at_run t4 dev c q t5 p k t6 bufs)
  from contextSetup_Inr [OF at_run(1)] obtain t3 where
    "list_all benign t3" "t4 = t3 @ [CreateContext dev c, CreateCommandQueue c q]" by blast
  then have q4: "list_all (\<lambda>e. \<not> launches e) t4"
    using benign_passive [of t3] by (auto simp: list_all_iff)
  from buildKernel_Inr [OF at_run(2)] q4 have q5: "list_all (\<lambda>e. \<not> launches e) t5" by auto
  from bindBuffers_Inr [OF at_run(3)]
  have t6: "t6 = t5 @ map (\<lambda>i. CreateBuffer i (bufferHandle drv i)) [0..<4]
                  @ [EnqueueWriteBuffer (bufferHandle drv 1) True 0 CL_SUCCESS]
                  @ map (\<lambda>i. SetKernelArg i (setArgErr drv i)) [0..<9]"
    by blast
  have q6: "list_all (\<lambda>e. \<not> launches e) t6" using q5 unfolding t6 by (auto simp: list_all_iff)
  have w: "EnqueueWriteBuffer (bufferHandle drv 1) True 0 CL_SUCCESS \<in> set t6"
    and cb: "CreateBuffer 1 (bufferHandle drv 1) \<in> set t6"
    unfolding t6 by simp_all
  let ?d = "dispatch drv a dev c q p k bufs t6"
  have tr: "trace ?d = pre @ EnqueueNDRangeKernel g l err # post" using assms at_run(4) by simp
  from dispatch_trace [of drv a dev c q p k bufs t6] show ?thesis
  proof
    assume "trace ?d = t6"
    then have "t6 = pre @ EnqueueNDRangeKernel g l err # post" using tr by simp
    from no_launch_no_split [OF this _ q6] show ?thesis by simp
  next
    assume "\<exists>g' l' e' rest. trace ?d = t6 @ EnqueueNDRangeKernel g' l' e' # rest
              \<and> list_all (\<lambda>e. \<not> launches e) rest"
    then obtain g' l' e' rest where d: "trace ?d = t6 @ EnqueueNDRangeKernel g' l' e' # rest"
      and qr: "list_all (\<lambda>e. \<not> launches e) rest" by blast
    have eq: "pre @ EnqueueNDRangeKernel g l err # post = t6 @ EnqueueNDRangeKernel g' l' e' # rest"
      using tr d by simp
    have "pre = t6" using split_at_launch [OF eq _ q6 qr] by simp
    moreover from this eq have "post = rest" by simp
    ultimately show ?thesis using w cb q6 qr by simp
  qed
qed

theorem found_flag_cleared_before_launch_witness:
  "trace (executeKernel demoDriver demoArgs)
     = [DriverCall 59 CL_SUCCESS, DriverCall 61 CL_SUCCESS, Cout ''OpenCL platforms:'',
        DriverCall 45 CL_SUCCESS, DriverCall 47 CL_SUCCESS, Cout ''    [ ] GPU'',
        DriverCall 73 CL_SUCCESS, DriverCall 81 CL_SUCCESS,
        CreateContext 21 31, CreateCommandQueue 31 32,
        CreateProgramWithSource (''keccak'' @ [CHR 0x0A] @ ''run'') 33,
        BuildProgram 33 CL_SUCCESS, CreateKernel 33 34,
        CreateBuffer 0 41, CreateBuffer 1 42, CreateBuffer 2 43, CreateBuffer 3 44,
        EnqueueWriteBuffer 42 True 0 CL_SUCCESS,
        SetKernelArg 0 CL_SUCCESS, SetKernelArg 1 CL_SUCCESS, SetKernelArg 2 CL_SUCCESS,
        SetKernelArg 3 CL_SUCCESS, SetKernelArg 4 CL_SUCCESS, SetKernelArg 5 CL_SUCCESS,
        SetKernelArg 6 CL_SUCCESS, SetKernelArg 7 CL_SUCCESS, SetKernelArg 8 CL_SUCCESS]
       @ EnqueueNDRangeKernel 1024 256 CL_SUCCESS
       # [Finish, DriverCall 203 CL_SUCCESS,
          ReleaseMemObject 41, ReleaseMemObject 42, ReleaseMemObject 43, ReleaseMemObject 44,
          ReleaseKernel 34, ReleaseProgram 33, ReleaseCommandQueue 32, ReleaseContext 31]
   \<and> EnqueueWriteBuffer (bufferHandle demoDriver 1) True 0 CL_SUCCESS = EnqueueWriteBuffer 42 True 0 CL_SUCCESS"
proof -
  have t: "trace (executeKernel demoDriver demoArgs)
     = [DriverCall 59 CL_SUCCESS, DriverCall 61 CL_SUCCESS, Cout ''OpenCL platforms:'',
        DriverCall 45 CL_SUCCESS, DriverCall 47 CL_SUCCESS, Cout ''    [ ] GPU'',
        DriverCall 73 CL_SUCCESS, DriverCall 81 CL_SUCCESS,
        CreateContext 21 31, CreateCommandQueue 31 32,
        CreateProgramWithSource (''keccak'' @ [CHR 0x0A] @ ''run'') 33,
        BuildProgram 33 CL_SUCCESS, CreateKernel 33 34,
        CreateBuffer 0 41, CreateBuffer 1 42, CreateBuffer 2 43, CreateBuffer 3 44,
        EnqueueWriteBuffer 42 True 0 CL_SUCCESS,
        SetKernelArg 0 CL_SUCCESS, SetKernelArg 1 CL_SUCCESS, SetKernelArg 2 CL_SUCCESS,
        SetKernelArg 3 CL_SUCCESS, SetKernelArg 4 CL_SUCCESS, SetKernelArg 5 CL_SUCCESS,
        SetKernelArg 6 CL_SUCCESS, SetKernelArg 7 CL_SUCCESS, SetKernelArg 8 CL_SUCCESS]
       @ EnqueueNDRangeKernel 1024 256 CL_SUCCESS
       # [Finish, DriverCall 203 CL_SUCCESS,
          ReleaseMemObject 41, ReleaseMemObject 42, ReleaseMemObject 43, ReleaseMemObject 44,
          ReleaseKernel 34, ReleaseProgram 33, ReleaseCommandQueue 32, ReleaseContext 31]"
    by code_simp
  show ?thesis using t found_flag_cleared_before_launch [OF t] by (simp add: demoDriver_def)
qed

section \<open>Build failures\<close>


lemma buildLogText_empty:
  assumes "buildLogSizeErr drv = CL_SUCCESS" and "buildLogSize drv \<noteq> 0"
    and "buildLogErr drv \<noteq> CL_SUCCESS"
  shows "buildLogText drv = Some []"
proof -
  have "0 < unat (buildLogSize drv)" using assms(2) by (simp add: unat_gt_0)
  then obtain m where "unat (buildLogSize drv) = Suc m" by (cases "unat (buildLogSize drv)") auto
  then show ?thesis using assms(1,3) by (simp add: buildLogText_def Let_def)
qed


lemma compile_failure_run:
  assumes "contextSetup drv a = Inr (t4, dev, c, q)"
    and "kernelFile drv = Some kernelSource" and "keccakFile drv = Some keccakSource"
    and "programHandle drv \<noteq> 0" and "buildErr drv \<noteq> CL_SUCCESS"
  shows "buildLogText drv = Some logText \<Longrightarrow>
           executeKernel drv a
             = stop a (t4 @ [CreateProgramWithSource (keccakSource @ [CHR 0x0A] @ kernelSource)
                               (programHandle drv),
                             BuildProgram (programHandle drv) (buildErr drv),
                             CerrBuildLog logText,
                             ReleaseProgram (programHandle drv),
                             ReleaseCommandQueue q, ReleaseContext c], Returned (- 1))"
    and "buildLogText drv = None \<Longrightarrow>
           executeKernel drv a
             = stop a (t4 @ [CreateProgramWithSource (keccakSource @ [CHR 0x0A] @ kernelSource)
                               (programHandle drv),
                             BuildProgram (programHandle drv) (buildErr drv)],
                       Undefined_Behaviour)"
proof -
  from contextSetup_Inr [OF assms(1)] have nz: "c \<noteq> 0" "q \<noteq> 0" by auto
  show "buildLogText drv = Some logText \<Longrightarrow>
           executeKernel drv a
             = stop a (t4 @ [CreateProgramWithSource (keccakSource @ [CHR 0x0A] @ kernelSource)
                               (programHandle drv),
                             BuildProgram (programHandle drv) (buildErr drv),
                             CerrBuildLog logText,
                             ReleaseProgram (programHandle drv),
                             ReleaseCommandQueue q, ReleaseContext c], Returned (- 1))"
    using assms nz
    by (simp add: executeKernel_def buildKernel_def releaseResources_no_buffers releaseAndReturn_def
          Let_def)
  show "buildLogText drv = None \<Longrightarrow>
           executeKernel drv a
             = stop a (t4 @ [CreateProgramWithSource (keccakSource @ [CHR 0x0A] @ kernelSource)
                               (programHandle drv),
                             BuildProgram (programHandle drv) (buildErr drv)],
                       Undefined_Behaviour)"
    using assms nz
    by (simp add: executeKernel_def buildKernel_def Let_def)
qed




section \<open>The return value\<close>

lemma dispatch_completes:
  assumes "nat 4 \<le> length bufs"
    and "maxWorkGroupSizeErr drv dev = CL_SUCCESS"
    and "localWorkSize (threadsPerBlock a) (maxWorkGroupSize drv dev) \<noteq> 0"
    and "enqueueErr drv = CL_SUCCESS" and "readFoundErr drv = CL_SUCCESS"
    and "foundValue drv = 1 \<longrightarrow>
           32 \<le> length (output_buf a) \<and> readOutputErr drv = CL_SUCCESS
           \<and> readNonceErr drv = CL_SUCCESS"
  shows "outcome (dispatch drv a dev c q p k bufs t) = Returned (foundValue drv)"
proof -
  from releaseResources_explicit [OF assms(1), of c q p k]
  obtain es where "releaseResources c q p k bufs 4 = Some es" by blast
  then show ?thesis using assms(2-6)
    by (auto simp: dispatch_def globalWorkSize_def Let_def CL_CALL_def releaseAndReturn_def stop_def)
qed

text \<open>
  Claim C1, as stated: every call that returns gives -1, 0 or 1 and never another value.
  Line 209 returns \<open>foundValue\<close> as it was read back from the device, whatever it is:
  with a kernel that leaves 2 in the found flag the call returns 2.
\<close>

theorem return_value_counterexample:
  "outcome (executeKernel (demoDriver\<lparr>foundValue := 2\<rparr>) demoArgs) = Returned 2
   \<and> (2 :: cl_int) \<notin> {- 1, 0, 1}"
  by code_simp

text \<open>
  Claim C1, amended: every call that returns gives -1 or the value of the found flag;
  a value other than -1 is returned only after the kernel was enqueued, the device
  finished and the flag was read back; so the value is one of -1, 0 and 1 whenever the
  flag read back is 0 or 1, and when it is 1 the caller's digest and nonce have been
  filled in from the device. Conversely, a call that gets as far as the work partitioning
  and meets no error after it (the device query, the enqueue and the readbacks succeed,
  the local size is not 0) returns the found flag exactly as read back: 0 for 0, 1 for 1,
  and any other value unchanged.
\<close>

theorem return_value_is_error_or_flag:
  "(outcome (executeKernel drv a) = Returned r \<longrightarrow>
      (r = - 1 \<or> r = foundValue drv)
      \<and> (r \<noteq> - 1 \<longrightarrow>
           (\<exists>pre g l rest. trace (executeKernel drv a)
              = pre @ [EnqueueNDRangeKernel g l CL_SUCCESS, Finish, DriverCall 203 CL_SUCCESS]
                  @ rest))
      \<and> (foundValue drv = 0 \<or> foundValue drv = 1 \<longrightarrow> r = - 1 \<or> r = 0 \<or> r = 1)
      \<and> (r = 1 \<longrightarrow>
           hostOutput (executeKernel drv a)
             = map (deviceOutput drv) [0..<32] @ drop 32 (output_buf a)
           \<and> hostNonce (executeKernel drv a) = deviceNonce drv))
   \<and> (\<forall>t4 dev c q t5 p k t6 bufs.
        contextSetup drv a = Inr (t4, dev, c, q) \<and> buildKernel drv dev c q t4 = Inr (t5, p, k)
        \<and> bindBuffers drv c q p k t5 = Inr (t6, bufs)
        \<and> maxWorkGroupSizeErr drv dev = CL_SUCCESS
        \<and> localWorkSize (threadsPerBlock a) (maxWorkGroupSize drv dev) \<noteq> 0
        \<and> enqueueErr drv = CL_SUCCESS \<and> readFoundErr drv = CL_SUCCESS
        \<and> (foundValue drv = 1 \<longrightarrow>
              32 \<le> length (output_buf a) \<and> readOutputErr drv = CL_SUCCESS
              \<and> readNonceErr drv = CL_SUCCESS) \<longrightarrow>
          outcome (executeKernel drv a) = Returned (foundValue drv))"
proof -
  have A: "(r = - 1 \<or> r = foundValue drv)
      \<and> (r \<noteq> - 1 \<longrightarrow>
           (\<exists>pre g l rest. trace (executeKernel drv a)
              = pre @ [EnqueueNDRangeKernel g l CL_SUCCESS, Finish, DriverCall 203 CL_SUCCESS]
                  @ rest))
      \<and> (foundValue drv = 0 \<or> foundValue drv = 1 \<longrightarrow> r = - 1 \<or> r = 0 \<or> r = 1)
      \<and> (r = 1 \<longrightarrow>
           hostOutput (executeKernel drv a)
             = map (deviceOutput drv) [0..<32] @ drop 32 (output_buf a)
           \<and> hostNonce (executeKernel drv a) = deviceNonce drv)"
    if ret: "outcome (executeKernel drv a) = Returned r"
  proof (cases rule: executeKernel_cases [of drv a])
    case (at_setup t oc)
    then have "r = - 1" using ret contextSetup_Inl_facts(2) [of drv a t oc r] by (simp add: stop_simps)
    then show ?thesis by simp
  next
    case (at_build t4 dev c q t oc)
    then have "r = - 1" using ret buildKernel_Inl [of drv dev c q t4 t oc] by (auto simp: stop_simps)
    then show ?thesis by simp
  next
    case (at_bind t4 dev c q t5 p k t oc)
    then have "r = - 1" using ret bindBuffers_Inl [of drv c q p k t5 t oc] by (simp add: stop_simps)
    then show ?thesis by simp
  next
    case (at_run t4 dev c q t5 p k t6 bufs)
    let ?d = "dispatch drv a dev c q p k bufs t6"
    have o: "outcome ?d = Returned r" using ret at_run(4) by simp
    have 1: "r = - 1 \<or> r = foundValue drv" using dispatch_Returned [OF o] by blast
    have 2: "r \<noteq> - 1 \<longrightarrow> (\<exists>pre g l rest. trace ?d
              = pre @ [EnqueueNDRangeKernel g l CL_SUCCESS, Finish, DriverCall 203 CL_SUCCESS] @ rest)"
      using dispatch_completed [OF o] by blast
    have 3: "r = 1 \<longrightarrow> hostOutput ?d = map (deviceOutput drv) [0..<32] @ drop 32 (output_buf a)
           \<and> hostNonce ?d = deviceNonce drv"
      using dispatch_found [of drv a dev c q p k bufs t6] o by blast
    show ?thesis using 1 2 3 unfolding at_run(4) by auto
  qed
  have B: "outcome (executeKernel drv a) = Returned (foundValue drv)"
    if cs: "contextSetup drv a = Inr (t4, dev, c, q)"
      and bk: "buildKernel drv dev c q t4 = Inr (t5, p, k)"
      and bb: "bindBuffers drv c q p k t5 = Inr (t6, bufs)"
      and ok: "maxWorkGroupSizeErr drv dev = CL_SUCCESS"
        "localWorkSize (threadsPerBlock a) (maxWorkGroupSize drv dev) \<noteq> 0"
        "enqueueErr drv = CL_SUCCESS" "readFoundErr drv = CL_SUCCESS"
        "foundValue drv = 1 \<longrightarrow>
              32 \<le> length (output_buf a) \<and> readOutputErr drv = CL_SUCCESS
              \<and> readNonceErr drv = CL_SUCCESS"
    for t4 dev c q t5 p k t6 bufs
  proof -
    from bindBuffers_Inr [OF bb] have "nat 4 \<le> length bufs" by simp
    from dispatch_completes [OF this ok]
    show ?thesis using cs bk bb by (simp add: executeKernel_def)
  qed
  have A': "outcome (executeKernel drv a) = Returned r \<longrightarrow>
      (r = - 1 \<or> r = foundValue drv)
      \<and> (r \<noteq> - 1 \<longrightarrow>
           (\<exists>pre g l rest. trace (executeKernel drv a)
              = pre @ [EnqueueNDRangeKernel g l CL_SUCCESS, Finish, DriverCall 203 CL_SUCCESS]
                  @ rest))
      \<and> (foundValue drv = 0 \<or> foundValue drv = 1 \<longrightarrow> r = - 1 \<or> r = 0 \<or> r = 1)
      \<and> (r = 1 \<longrightarrow>
           hostOutput (executeKernel drv a)
             = map (deviceOutput drv) [0..<32] @ drop 32 (output_buf a)
           \<and> hostNonce (executeKernel drv a) = deviceNonce drv)"
    using A by blast
  have B': "\<forall>t4 dev c q t5 p k t6 bufs.
        contextSetup drv a = Inr (t4, dev, c, q) \<and> buildKernel drv dev c q t4 = Inr (t5, p, k)
        \<and> bindBuffers drv c q p k t5 = Inr (t6, bufs)
        \<and> maxWorkGroupSizeErr drv dev = CL_SUCCESS
        \<and> localWorkSize (threadsPerBlock a) (maxWorkGroupSize drv dev) \<noteq> 0
        \<and> enqueueErr drv = CL_SUCCESS \<and> readFoundErr drv = CL_SUCCESS
        \<and> (foundValue drv = 1 \<longrightarrow>
              32 \<le> length (output_buf a) \<and> readOutputErr drv = CL_SUCCESS
              \<and> readNonceErr drv = CL_SUCCESS) \<longrightarrow>
          outcome (executeKernel drv a) = Returned (foundValue drv)"
    using B by blast
  show ?thesis by (rule conjI [OF A' B'])
qed

theorem return_value_is_error_or_flag_witness:
  "outcome (executeKernel demoDriver demoArgs) = Returned 0
   \<and> outcome (executeKernel (demoDriver\<lparr>foundValue := 1\<rparr>) demoArgs) = Returned 1
   \<and> hostNonce (executeKernel (demoDriver\<lparr>foundValue := 1\<rparr>) demoArgs) = 77
   \<and> outcome (executeKernel (demoDriver\<lparr>foundValue := 2\<rparr>) demoArgs) = Returned 2
   \<and> (\<exists>pre g l rest. trace (executeKernel (demoDriver\<lparr>foundValue := 2\<rparr>) demoArgs)
            = pre @ [EnqueueNDRangeKernel g l CL_SUCCESS, Finish, DriverCall 203 CL_SUCCESS] @ rest)"
proof -
  let ?t4 = "[DriverCall 59 CL_SUCCESS, DriverCall 61 CL_SUCCESS, Cout ''OpenCL platforms:'',
        DriverCall 45 CL_SUCCESS, DriverCall 47 CL_SUCCESS, Cout ''    [ ] GPU'',
        DriverCall 73 CL_SUCCESS, DriverCall 81 CL_SUCCESS,
        CreateContext 21 31, CreateCommandQueue 31 32]"
  let ?t5 = "?t4 @ [CreateProgramWithSource (''keccak'' @ [CHR 0x0A] @ ''run'') 33,
        BuildProgram 33 CL_SUCCESS, CreateKernel 33 34]"
  let ?t6 = "?t5 @ [CreateBuffer 0 41, CreateBuffer 1 42, CreateBuffer 2 43, CreateBuffer 3 44,
        EnqueueWriteBuffer 42 True 0 CL_SUCCESS,
        SetKernelArg 0 CL_SUCCESS, SetKernelArg 1 CL_SUCCESS, SetKernelArg 2 CL_SUCCESS,
        SetKernelArg 3 CL_SUCCESS, SetKernelArg 4 CL_SUCCESS, SetKernelArg 5 CL_SUCCESS,
        SetKernelArg 6 CL_SUCCESS, SetKernelArg 7 CL_SUCCESS, SetKernelArg 8 CL_SUCCESS]"
  have reach: "contextSetup (demoDriver\<lparr>foundValue := v\<rparr>) demoArgs = Inr (?t4, 21, 31, 32)
      \<and> buildKernel (demoDriver\<lparr>foundValue := v\<rparr>) 21 31 32 ?t4 = Inr (?t5, 33, 34)
      \<and> bindBuffers (demoDriver\<lparr>foundValue := v\<rparr>) 31 32 33 34 ?t5 = Inr (?t6, [41, 42, 43, 44])
      \<and> maxWorkGroupSizeErr (demoDriver\<lparr>foundValue := v\<rparr>) 21 = CL_SUCCESS
      \<and> localWorkSize (threadsPerBlock demoArgs) (maxWorkGroupSize (demoDriver\<lparr>foundValue := v\<rparr>) 21)
            \<noteq> 0
      \<and> enqueueErr (demoDriver\<lparr>foundValue := v\<rparr>) = CL_SUCCESS
      \<and> readFoundErr (demoDriver\<lparr>foundValue := v\<rparr>) = CL_SUCCESS
      \<and> (foundValue (demoDriver\<lparr>foundValue := v\<rparr>) = 1 \<longrightarrow>
            32 \<le> length (output_buf demoArgs)
            \<and> readOutputErr (demoDriver\<lparr>foundValue := v\<rparr>) = CL_SUCCESS
            \<and> readNonceErr (demoDriver\<lparr>foundValue := v\<rparr>) = CL_SUCCESS)" for v
    by (simp add: contextSetup_def deviceSetup_def enumeratePlatforms_def CL_CALL_def
          getPlatform_def selectDevice_def printDeviceInfo_def createContextAndQueue_def
          buildKernel_def bindBuffers_def localWorkSize_def demoDriver_def demoArgs_def Let_def
          upt_rec)
  note completes = return_value_is_error_or_flag [THEN conjunct2, rule_format, OF reach]
  have 0: "outcome (executeKernel demoDriver demoArgs) = Returned 0"
    using completes [of 0] by (simp add: demoDriver_def)
  have 1: "outcome (executeKernel (demoDriver\<lparr>foundValue := 1\<rparr>) demoArgs) = Returned 1"
    using completes [of 1] by simp
  have 2: "outcome (executeKernel (demoDriver\<lparr>foundValue := 2\<rparr>) demoArgs) = Returned 2"
    using completes [of 2] by simp
  have n: "hostNonce (executeKernel (demoDriver\<lparr>foundValue := 1\<rparr>) demoArgs) = 77"
    using return_value_is_error_or_flag
      [of "demoDriver\<lparr>foundValue := 1\<rparr>" demoArgs 1, THEN conjunct1, rule_format, OF 1]
    by (simp add: demoDriver_def)
  have t: "\<exists>pre g l rest. trace (executeKernel (demoDriver\<lparr>foundValue := 2\<rparr>) demoArgs)
            = pre @ [EnqueueNDRangeKernel g l CL_SUCCESS, Finish, DriverCall 203 CL_SUCCESS] @ rest"
    using return_value_is_error_or_flag
      [of "demoDriver\<lparr>foundValue := 2\<rparr>" demoArgs 2, THEN conjunct1, rule_format, OF 2]
    by simp
  show ?thesis using 0 1 2 n t by blast
qed

section \<open>Platform selection\<close>








section \<open>Fatal and returned failures\<close>

lemma listPlatforms_name_query_fails:
  assumes "\<forall>j\<in>set pre. platformNameSizeErr drv (platformIds drv j) = CL_SUCCESS
             \<and> platformNameErr drv (platformIds drv j) = CL_SUCCESS
             \<and> platformNameBuf drv (platformIds drv j) \<noteq> []"
    and "platformNameSizeErr drv (platformIds drv k) \<noteq> CL_SUCCESS
         \<or> platformNameErr drv (platformIds drv k) \<noteq> CL_SUCCESS"
  shows "\<exists>t' line err. listPlatforms drv a (pre @ k # post) ix t
            = Inl (t' @ [DriverCall line err, CoutError line err], Exited)
          \<and> err \<noteq> CL_SUCCESS \<and> (line = 45 \<or> line = 47)"
  using assms(1)
proof (induction pre arbitrary: ix t)
  case Nil
  show ?case
  proof (cases "platformNameSizeErr drv (platformIds drv k) = CL_SUCCESS")
    case True
    then have e: "platformNameErr drv (platformIds drv k) \<noteq> CL_SUCCESS" using assms(2) by simp
    have "listPlatforms drv a ([] @ k # post) ix t
            = Inl ((t @ [DriverCall 45 CL_SUCCESS])
                     @ [DriverCall 47 (platformNameErr drv (platformIds drv k)),
                        CoutError 47 (platformNameErr drv (platformIds drv k))], Exited)"
      using True e by (simp add: getPlatform_def CL_CALL_def)
    then show ?thesis using e by blast
  next
    case False
    have "listPlatforms drv a ([] @ k # post) ix t
            = Inl (t @ [DriverCall 45 (platformNameSizeErr drv (platformIds drv k)),
                        CoutError 45 (platformNameSizeErr drv (platformIds drv k))], Exited)"
      using False by (simp add: getPlatform_def CL_CALL_def)
    then show ?thesis using False by blast
  qed
next
  case (Cons j pre)
  then have ok: "platformNameSizeErr drv (platformIds drv j) = CL_SUCCESS"
      "platformNameErr drv (platformIds drv j) = CL_SUCCESS"
      "platformNameBuf drv (platformIds drv j) \<noteq> []"
    and rest: "\<forall>j\<in>set pre. platformNameSizeErr drv (platformIds drv j) = CL_SUCCESS
             \<and> platformNameErr drv (platformIds drv j) = CL_SUCCESS
             \<and> platformNameBuf drv (platformIds drv j) \<noteq> []"
    by simp_all
  obtain ix1 line where
    "listPlatforms drv a ((j # pre) @ k # post) ix t
       = listPlatforms drv a (pre @ k # post) ix1
           (t @ [DriverCall 45 CL_SUCCESS, DriverCall 47 CL_SUCCESS, Cout line])"
    using ok by (simp add: getPlatform_def CL_CALL_def Let_def)
  then show ?case using Cons.IH [OF rest] by simp
qed

lemma checkedCalls_first_failure:
  assumes "\<forall>c\<in>set pre. snd c = CL_SUCCESS" and "err \<noteq> CL_SUCCESS"
  shows "checkedCalls (pre @ (line, err) # post) t
           = Inl (t @ map (\<lambda>c. DriverCall (fst c) CL_SUCCESS) pre
                    @ [DriverCall line err, CoutError line err], Exited)"
  using assms(1)
proof (induction pre arbitrary: t)
  case Nil
  then show ?case using assms(2) by (simp add: CL_CALL_def)
next
  case (Cons c pre)
  obtain l e where c: "c = (l, e)" by (cases c)
  then have "e = CL_SUCCESS" using Cons.prems by simp
  then show ?case using Cons c by (simp add: CL_CALL_def)
qed

lemma foldl_or_nonzero:
  fixes w :: "'a::len word"
  assumes "w \<noteq> 0 \<or> (\<exists>x\<in>set xs. x \<noteq> 0)"
  shows "foldl (OR) w xs \<noteq> 0"
  using assms
proof (induction xs arbitrary: w)
  case Nil
  then show ?case by simp
next
  case (Cons x xs)
  have "w OR x \<noteq> 0 \<or> (\<exists>y\<in>set xs. y \<noteq> 0)" using Cons.prems by (auto simp: or_eq_0_iff)
  from Cons.IH [OF this] show ?case by simp
qed

lemma buildLogText_defined:
  assumes "buildLogSizeErr drv = CL_SUCCESS" and "buildLogSize drv \<noteq> 0"
    and "buildLogErr drv \<noteq> CL_SUCCESS
         \<or> (\<exists>logText. buildLog drv = logText @ [CHR 0x00]
                \<and> length logText < unat (buildLogSize drv))"
  shows "\<exists>printed. buildLogText drv = Some printed"
proof (cases "buildLogErr drv = CL_SUCCESS")
  case False
  then show ?thesis using buildLogText_empty [OF assms(1,2)] by blast
next
  case True
  then obtain logText where l: "buildLog drv = logText @ [CHR 0x00]"
    "length logText < unat (buildLogSize drv)"
    using assms(3) by blast
  then have "take (unat (buildLogSize drv)) (buildLog drv) = logText @ [CHR 0x00]" by simp
  then show ?thesis using assms(1) True by (simp add: buildLogText_def Let_def)
qed


lemma upt_split_at:
  assumes "k < n"
  shows "[0..<n] = [0..<k] @ k # [Suc k..<n]"
  using assms
  by (metis less_imp_le_nat upt_add_eq_append upt_conv_Cons le_add_diff_inverse
      plus_nat.add_0 zero_le)

lemma exit_platform_name:
  assumes "numPlatformsErr drv = CL_SUCCESS" and "platformIdsErr drv = CL_SUCCESS"
    and "k < unat (numPlatforms drv)"
    and "\<forall>j < k. platformNameSizeErr drv (platformIds drv j) = CL_SUCCESS
             \<and> platformNameErr drv (platformIds drv j) = CL_SUCCESS
             \<and> platformNameBuf drv (platformIds drv j) \<noteq> []"
    and "platformNameSizeErr drv (platformIds drv k) \<noteq> CL_SUCCESS
         \<or> platformNameErr drv (platformIds drv k) \<noteq> CL_SUCCESS"
  shows "outcome (executeKernel drv a) = Exited
         \<and> (\<exists>pre line err. trace (executeKernel drv a)
                = pre @ [DriverCall line err, CoutError line err]
              \<and> err \<noteq> CL_SUCCESS \<and> (line = 45 \<or> line = 47))"
proof -
  let ?hd = "[DriverCall 59 CL_SUCCESS, DriverCall 61 CL_SUCCESS, Cout ''OpenCL platforms:'']"
  have pre: "\<forall>j\<in>set [0..<k]. platformNameSizeErr drv (platformIds drv j) = CL_SUCCESS
             \<and> platformNameErr drv (platformIds drv j) = CL_SUCCESS
             \<and> platformNameBuf drv (platformIds drv j) \<noteq> []"
    using assms(4) by simp
  from listPlatforms_name_query_fails [OF pre assms(5), of a "[Suc k..<unat (numPlatforms drv)]"
      "- 1" ?hd]
  obtain t' line err where
    l: "listPlatforms drv a ([0..<k] @ k # [Suc k..<unat (numPlatforms drv)]) (- 1) ?hd
          = Inl (t' @ [DriverCall line err, CoutError line err], Exited)"
    and e: "err \<noteq> CL_SUCCESS" "line = 45 \<or> line = 47"
    by blast
  have "enumeratePlatforms drv a []
          = Inl (t' @ [DriverCall line err, CoutError line err], Exited)"
    using l assms(1,2) upt_split_at [OF assms(3)]
    by (simp add: enumeratePlatforms_def CL_CALL_def)
  then have "executeKernel drv a = stop a (t' @ [DriverCall line err, CoutError line err], Exited)"
    by (simp add: executeKernel_def contextSetup_def deviceSetup_def)
  then show ?thesis using e by (auto simp: stop_simps)
qed

lemma exit_device_info:
  assumes "enumeratePlatforms drv a [] = Inr (t1, pid)"
    and "selectDevice drv a pid t1 = Inr (t2, dev)"
    and "showDeviceInfo a" and "k < 6"
    and "\<forall>j < k. deviceInfoErr drv dev j = CL_SUCCESS"
    and "deviceInfoErr drv dev k \<noteq> CL_SUCCESS"
  shows "executeKernel drv a
           = stop a (t2 @ map (\<lambda>j. DriverCall (91 + j) CL_SUCCESS) [0..<k]
                       @ [DriverCall (91 + k) (deviceInfoErr drv dev k),
                          CoutError (91 + k) (deviceInfoErr drv dev k)], Exited)"
proof -
  let ?f = "\<lambda>i. (91 + i, deviceInfoErr drv dev i)"
  have sp: "map ?f [0..<6] = map ?f [0..<k] @ ?f k # map ?f [Suc k..<6]"
    using upt_split_at [OF assms(4)] by (simp only: map_append list.map)
  have ok: "\<forall>c\<in>set (map ?f [0..<k]). snd c = CL_SUCCESS" using assms(5) by simp
  have "checkedCalls (map ?f [0..<6]) t2
          = Inl (t2 @ map (\<lambda>c. DriverCall (fst c) CL_SUCCESS) (map ?f [0..<k])
                    @ [DriverCall (91 + k) (deviceInfoErr drv dev k),
                       CoutError (91 + k) (deviceInfoErr drv dev k)], Exited)"
    unfolding sp by (rule checkedCalls_first_failure [OF ok assms(6)])
  then have "printDeviceInfo drv a dev t2
          = Inl (t2 @ map (\<lambda>j. DriverCall (91 + j) CL_SUCCESS) [0..<k]
                    @ [DriverCall (91 + k) (deviceInfoErr drv dev k),
                       CoutError (91 + k) (deviceInfoErr drv dev k)], Exited)"
    using assms(3) by (simp add: printDeviceInfo_def comp_def del: upt_rec_numeral)
  then show ?thesis using assms(1,2)
    by (simp add: executeKernel_def contextSetup_def deviceSetup_def)
qed

lemma ret_build:
  assumes "contextSetup drv a = Inr (t4, dev, c, q)"
  shows "kernelFile drv = None \<or> keccakFile drv = None \<Longrightarrow>
           outcome (executeKernel drv a) = Returned (- 1)"
    and "kernelFile drv \<noteq> None \<Longrightarrow> keccakFile drv \<noteq> None \<Longrightarrow> programHandle drv = 0 \<Longrightarrow>
           outcome (executeKernel drv a) = Returned (- 1)"
    and "kernelFile drv \<noteq> None \<Longrightarrow> keccakFile drv \<noteq> None \<Longrightarrow> programHandle drv \<noteq> 0 \<Longrightarrow>
         buildErr drv \<noteq> CL_SUCCESS \<Longrightarrow> buildLogSizeErr drv = CL_SUCCESS \<Longrightarrow>
         buildLogSize drv \<noteq> 0 \<Longrightarrow>
         buildLogErr drv \<noteq> CL_SUCCESS
           \<or> (\<exists>logText. buildLog drv = logText @ [CHR 0x00]
                  \<and> length logText < unat (buildLogSize drv)) \<Longrightarrow>
           outcome (executeKernel drv a) = Returned (- 1)"
    and "kernelFile drv \<noteq> None \<Longrightarrow> keccakFile drv \<noteq> None \<Longrightarrow> programHandle drv \<noteq> 0 \<Longrightarrow>
         buildErr drv = CL_SUCCESS \<Longrightarrow> kernelHandle drv = 0 \<or> kernelErr drv \<noteq> CL_SUCCESS \<Longrightarrow>
           outcome (executeKernel drv a) = Returned (- 1)"
proof -
  show "kernelFile drv = None \<or> keccakFile drv = None \<Longrightarrow>
           outcome (executeKernel drv a) = Returned (- 1)"
    using assms
    by (auto simp: executeKernel_def buildKernel_def releaseResources_no_buffers
          releaseAndReturn_def stop_def split: option.splits)
  show "kernelFile drv \<noteq> None \<Longrightarrow> keccakFile drv \<noteq> None \<Longrightarrow> programHandle drv = 0 \<Longrightarrow>
           outcome (executeKernel drv a) = Returned (- 1)"
    using assms
    by (auto simp: executeKernel_def buildKernel_def releaseResources_no_buffers
          releaseAndReturn_def stop_def Let_def split: option.splits)
  show "kernelFile drv \<noteq> None \<Longrightarrow> keccakFile drv \<noteq> None \<Longrightarrow> programHandle drv \<noteq> 0 \<Longrightarrow>
         buildErr drv = CL_SUCCESS \<Longrightarrow> kernelHandle drv = 0 \<or> kernelErr drv \<noteq> CL_SUCCESS \<Longrightarrow>
           outcome (executeKernel drv a) = Returned (- 1)"
    using assms
    by (auto simp: executeKernel_def buildKernel_def releaseResources_no_buffers
          releaseAndReturn_def stop_def Let_def split: option.splits)
  show "outcome (executeKernel drv a) = Returned (- 1)"
    if "kernelFile drv \<noteq> None" and "keccakFile drv \<noteq> None" and "programHandle drv \<noteq> 0"
      and "buildErr drv \<noteq> CL_SUCCESS" and "buildLogSizeErr drv = CL_SUCCESS"
      and "buildLogSize drv \<noteq> 0"
      and "buildLogErr drv \<noteq> CL_SUCCESS
           \<or> (\<exists>logText. buildLog drv = logText @ [CHR 0x00]
                  \<and> length logText < unat (buildLogSize drv))"
  proof -
    note h = that
    from buildLogText_defined [OF h(5,6,7)] obtain printed where "buildLogText drv = Some printed"
      by blast
    moreover obtain ks kc where "kernelFile drv = Some ks" "keccakFile drv = Some kc"
      using h(1,2) by auto
    ultimately show ?thesis
      using compile_failure_run(1) [OF assms _ _ h(3,4)] by (simp add: stop_simps)
  qed
qed

lemma ret_bind:
  assumes "contextSetup drv a = Inr (t4, dev, c, q)"
    and "buildKernel drv dev c q t4 = Inr (t5, p, k)"
  shows "\<exists>i < 4. bufferHandle drv i = 0 \<Longrightarrow> outcome (executeKernel drv a) = Returned (- 1)"
    and "\<forall>i < 4. bufferHandle drv i \<noteq> 0 \<Longrightarrow>
         writeFoundErr drv \<noteq> CL_SUCCESS \<or> (\<exists>i < 9. setArgErr drv i \<noteq> CL_SUCCESS) \<Longrightarrow>
           outcome (executeKernel drv a) = Returned (- 1)"
proof -
  let ?bufs = "map (bufferHandle drv) [0..<4]"
  have "nat 4 \<le> length ?bufs" by simp
  from releaseResources_explicit [OF this, of c q p k]
  obtain es where r: "releaseResources c q p k ?bufs 4 = Some es" by blast
  show "outcome (executeKernel drv a) = Returned (- 1)" if "\<exists>i < 4. bufferHandle drv i = 0"
  proof -
    from that have "0 \<in> set ?bufs" by (auto simp: image_iff simp del: upt_rec_numeral)
    then have "bindBuffers drv c q p k t5
                 = Inl (releaseAndReturn
                     (t5 @ map (\<lambda>i. CreateBuffer i (bufferHandle drv i)) [0..<4]
                         @ [Cerr ''Error allocating buffer.''])
                     (releaseResources c q p k ?bufs 4) (- 1))"
      by (simp add: bindBuffers_def Let_def del: upt_rec_numeral)
    then show ?thesis using assms r
      by (simp add: executeKernel_def releaseAndReturn_def stop_def del: upt_rec_numeral)
  qed
  show "outcome (executeKernel drv a) = Returned (- 1)"
    if nn: "\<forall>i < 4. bufferHandle drv i \<noteq> 0"
      and f: "writeFoundErr drv \<noteq> CL_SUCCESS \<or> (\<exists>i < 9. setArgErr drv i \<noteq> CL_SUCCESS)"
  proof -
    from nn have n0: "0 \<notin> set ?bufs" by (auto simp del: upt_rec_numeral)
    have "writeFoundErr drv \<noteq> 0 \<or> (\<exists>x\<in>set (map (setArgErr drv) [0..<9]). x \<noteq> 0)"
      using f by (auto simp del: upt_rec_numeral)
    from foldl_or_nonzero [OF this]
    have e: "foldl (OR) (writeFoundErr drv) (map (setArgErr drv) [0..<9]) \<noteq> 0" .
    have "bindBuffers drv c q p k t5
            = Inl (releaseAndReturn
                (t5 @ map (\<lambda>i. CreateBuffer i (bufferHandle drv i)) [0..<4]
                    @ [EnqueueWriteBuffer (?bufs ! 1) True 0 (writeFoundErr drv)]
                    @ map (\<lambda>i. SetKernelArg i (setArgErr drv i)) [0..<9]
                    @ [CerrCode (foldl (OR) (writeFoundErr drv) (map (setArgErr drv) [0..<9]))])
                (releaseResources c q p k ?bufs 4) (- 1))"
      using n0 e by (simp add: bindBuffers_def Let_def del: upt_rec_numeral)
    then show ?thesis using assms r
      by (simp add: executeKernel_def releaseAndReturn_def stop_def del: upt_rec_numeral)
  qed
qed

lemma ret_enqueue:
  assumes "contextSetup drv a = Inr (t4, dev, c, q)"
    and "buildKernel drv dev c q t4 = Inr (t5, p, k)"
    and "bindBuffers drv c q p k t5 = Inr (t6, bufs)"
    and "maxWorkGroupSizeErr drv dev = CL_SUCCESS"
    and "localWorkSize (threadsPerBlock a) (maxWorkGroupSize drv dev) \<noteq> 0"
    and "enqueueErr drv \<noteq> CL_SUCCESS"
  shows "outcome (executeKernel drv a) = Returned (- 1)"
proof -
  from bindBuffers_Inr [OF assms(3)] have "nat 4 \<le> length bufs" by simp
  from releaseResources_explicit [OF this, of c q p k]
  obtain es where "releaseResources c q p k bufs 4 = Some es" by blast
  then have "outcome (dispatch drv a dev c q p k bufs t6) = Returned (- 1)"
    using assms(4,5,6)
    by (simp add: dispatch_def globalWorkSize_def Let_def releaseAndReturn_def stop_def)
  then show ?thesis using assms(1,2,3) by (simp add: executeKernel_def)
qed

text \<open>
  Claim C2, as stated: a failing driver call of platform or device enumeration, of
  context creation or of queue creation terminates the process, and only build,
  allocation and dispatch failures return -1. Lines 107 to 121 do not use \<^verbatim>\<open>CL_CALL\<close>:
  a null context or queue prints the error code and returns -1.
\<close>

theorem setup_failures_counterexample:
  "outcome (executeKernel (demoDriver\<lparr>contextHandle := 0, contextErr := - 6\<rparr>) demoArgs)
     = Returned (- 1)
   \<and> outcome (executeKernel (demoDriver\<lparr>contextHandle := 0, contextErr := - 6\<rparr>) demoArgs)
     \<noteq> Exited
   \<and> outcome (executeKernel (demoDriver\<lparr>queueHandle := 0, queueErr := - 6\<rparr>) demoArgs)
     = Returned (- 1)
   \<and> outcome (executeKernel (demoDriver\<lparr>queueHandle := 0, queueErr := - 6\<rparr>) demoArgs)
     \<noteq> Exited"
  by code_simp

text \<open>
  Claim C2, amended: every failing driver call of platform and device enumeration
  terminates the process, the diagnostic of that call being the last thing printed, and
  no error code is returned: the two platform queries (lines 59 and 61), the two name
  queries of each platform (45 and 47), the two device queries (73 and 81) and the six
  attribute queries (91 to 96). A failed context creation returns -1 to the caller, and
  so does a failed queue creation, after releasing the context. Build failures (a source
  file that does not open, a failed program creation, a compile failure whose log can be
  fetched, a failed kernel creation), allocation failures (a null buffer, a failing flag
  write or argument binding) and a failed kernel enqueue return -1 as well.
\<close>

theorem setup_failures_exit_or_return:
  "(numPlatformsErr drv \<noteq> CL_SUCCESS \<longrightarrow>
      outcome (executeKernel drv a) = Exited
      \<and> trace (executeKernel drv a)
          = [DriverCall 59 (numPlatformsErr drv), CoutError 59 (numPlatformsErr drv)])
   \<and> (numPlatformsErr drv = CL_SUCCESS \<and> platformIdsErr drv \<noteq> CL_SUCCESS \<longrightarrow>
      outcome (executeKernel drv a) = Exited
      \<and> trace (executeKernel drv a)
          = [DriverCall 59 CL_SUCCESS,
             DriverCall 61 (platformIdsErr drv), CoutError 61 (platformIdsErr drv)])
   \<and> (\<forall>k. numPlatformsErr drv = CL_SUCCESS \<and> platformIdsErr drv = CL_SUCCESS
        \<and> k < unat (numPlatforms drv)
        \<and> (\<forall>j < k. platformNameSizeErr drv (platformIds drv j) = CL_SUCCESS
               \<and> platformNameErr drv (platformIds drv j) = CL_SUCCESS
               \<and> platformNameBuf drv (platformIds drv j) \<noteq> [])
        \<and> (platformNameSizeErr drv (platformIds drv k) \<noteq> CL_SUCCESS
             \<or> platformNameErr drv (platformIds drv k) \<noteq> CL_SUCCESS) \<longrightarrow>
      outcome (executeKernel drv a) = Exited
      \<and> (\<exists>pre line err. trace (executeKernel drv a)
              = pre @ [DriverCall line err, CoutError line err]
            \<and> err \<noteq> CL_SUCCESS \<and> (line = 45 \<or> line = 47)))
   \<and> (\<forall>t1 pid. enumeratePlatforms drv a [] = Inr (t1, pid)
        \<and> numDevicesErr drv pid \<noteq> CL_SUCCESS \<longrightarrow>
      outcome (executeKernel drv a) = Exited
      \<and> trace (executeKernel drv a)
          = t1 @ [DriverCall 73 (numDevicesErr drv pid), CoutError 73 (numDevicesErr drv pid)])
   \<and> (\<forall>t1 pid. enumeratePlatforms drv a [] = Inr (t1, pid)
        \<and> numDevicesErr drv pid = CL_SUCCESS \<and> \<not> numDevices drv pid \<le> deviceId a
        \<and> deviceIdsErr drv pid \<noteq> CL_SUCCESS \<longrightarrow>
      outcome (executeKernel drv a) = Exited
      \<and> trace (executeKernel drv a)
          = t1 @ [DriverCall 73 CL_SUCCESS,
                  DriverCall 81 (deviceIdsErr drv pid), CoutError 81 (deviceIdsErr drv pid)])
   \<and> (\<forall>t1 pid t2 dev k. enumeratePlatforms drv a [] = Inr (t1, pid)
        \<and> selectDevice drv a pid t1 = Inr (t2, dev) \<and> showDeviceInfo a \<and> k < 6
        \<and> (\<forall>j < k. deviceInfoErr drv dev j = CL_SUCCESS)
        \<and> deviceInfoErr drv dev k \<noteq> CL_SUCCESS \<longrightarrow>
      outcome (executeKernel drv a) = Exited
      \<and> trace (executeKernel drv a)
          = t2 @ map (\<lambda>j. DriverCall (91 + j) CL_SUCCESS) [0..<k]
               @ [DriverCall (91 + k) (deviceInfoErr drv dev k),
                  CoutError (91 + k) (deviceInfoErr drv dev k)])
   \<and> (\<forall>t3 dev. deviceSetup drv a = Inr (t3, dev) \<and> contextHandle drv = 0 \<longrightarrow>
      outcome (executeKernel drv a) = Returned (- 1)
      \<and> trace (executeKernel drv a) = t3 @ [CreateContext dev 0, CerrCode (contextErr drv)])
   \<and> (\<forall>t3 dev. deviceSetup drv a = Inr (t3, dev) \<and> contextHandle drv \<noteq> 0
        \<and> queueHandle drv = 0 \<longrightarrow>
      outcome (executeKernel drv a) = Returned (- 1)
      \<and> trace (executeKernel drv a)
          = t3 @ [CreateContext dev (contextHandle drv), CreateCommandQueue (contextHandle drv) 0,
                  CerrCode (queueErr drv), ReleaseContext (contextHandle drv)])
   \<and> (\<forall>t4 dev c q. contextSetup drv a = Inr (t4, dev, c, q)
        \<and> (kernelFile drv = None \<or> keccakFile drv = None) \<longrightarrow>
      outcome (executeKernel drv a) = Returned (- 1))
   \<and> (\<forall>t4 dev c q. contextSetup drv a = Inr (t4, dev, c, q)
        \<and> kernelFile drv \<noteq> None \<and> keccakFile drv \<noteq> None \<and> programHandle drv = 0 \<longrightarrow>
      outcome (executeKernel drv a) = Returned (- 1))
   \<and> (\<forall>t4 dev c q. contextSetup drv a = Inr (t4, dev, c, q)
        \<and> kernelFile drv \<noteq> None \<and> keccakFile drv \<noteq> None \<and> programHandle drv \<noteq> 0
        \<and> buildErr drv \<noteq> CL_SUCCESS
        \<and> buildLogSizeErr drv = CL_SUCCESS \<and> buildLogSize drv \<noteq> 0
        \<and> (buildLogErr drv \<noteq> CL_SUCCESS
             \<or> (\<exists>logText. buildLog drv = logText @ [CHR 0x00]
                    \<and> length logText < unat (buildLogSize drv))) \<longrightarrow>
      outcome (executeKernel drv a) = Returned (- 1))
   \<and> (\<forall>t4 dev c q. contextSetup drv a = Inr (t4, dev, c, q)
        \<and> kernelFile drv \<noteq> None \<and> keccakFile drv \<noteq> None \<and> programHandle drv \<noteq> 0
        \<and> buildErr drv = CL_SUCCESS
        \<and> (kernelHandle drv = 0 \<or> kernelErr drv \<noteq> CL_SUCCESS) \<longrightarrow>
      outcome (executeKernel drv a) = Returned (- 1))
   \<and> (\<forall>t4 dev c q t5 p k. contextSetup drv a = Inr (t4, dev, c, q)
        \<and> buildKernel drv dev c q t4 = Inr (t5, p, k)
        \<and> (\<exists>i < 4. bufferHandle drv i = 0) \<longrightarrow>
      outcome (executeKernel drv a) = Returned (- 1))
   \<and> (\<forall>t4 dev c q t5 p k. contextSetup drv a = Inr (t4, dev, c, q)
        \<and> buildKernel drv dev c q t4 = Inr (t5, p, k)
        \<and> (\<forall>i < 4. bufferHandle drv i \<noteq> 0)
        \<and> (writeFoundErr drv \<noteq> CL_SUCCESS \<or> (\<exists>i < 9. setArgErr drv i \<noteq> CL_SUCCESS)) \<longrightarrow>
      outcome (executeKernel drv a) = Returned (- 1))
   \<and> (\<forall>t4 dev c q t5 p k t6 bufs. contextSetup drv a = Inr (t4, dev, c, q)
        \<and> buildKernel drv dev c q t4 = Inr (t5, p, k)
        \<and> bindBuffers drv c q p k t5 = Inr (t6, bufs)
        \<and> maxWorkGroupSizeErr drv dev = CL_SUCCESS
        \<and> localWorkSize (threadsPerBlock a) (maxWorkGroupSize drv dev) \<noteq> 0
        \<and> enqueueErr drv \<noteq> CL_SUCCESS \<longrightarrow>
      outcome (executeKernel drv a) = Returned (- 1))"
proof -
  have c1: "numPlatformsErr drv \<noteq> CL_SUCCESS \<longrightarrow>
      outcome (executeKernel drv a) = Exited
      \<and> trace (executeKernel drv a)
          = [DriverCall 59 (numPlatformsErr drv), CoutError 59 (numPlatformsErr drv)]"
    by (simp add: executeKernel_def contextSetup_def deviceSetup_def enumeratePlatforms_def
        CL_CALL_def stop_def)
  have c2: "numPlatformsErr drv = CL_SUCCESS \<and> platformIdsErr drv \<noteq> CL_SUCCESS \<longrightarrow>
      outcome (executeKernel drv a) = Exited
      \<and> trace (executeKernel drv a)
          = [DriverCall 59 CL_SUCCESS,
             DriverCall 61 (platformIdsErr drv), CoutError 61 (platformIdsErr drv)]"
    by (simp add: executeKernel_def contextSetup_def deviceSetup_def enumeratePlatforms_def
        CL_CALL_def stop_def)
  have c3: "\<forall>k. numPlatformsErr drv = CL_SUCCESS \<and> platformIdsErr drv = CL_SUCCESS
        \<and> k < unat (numPlatforms drv)
        \<and> (\<forall>j < k. platformNameSizeErr drv (platformIds drv j) = CL_SUCCESS
               \<and> platformNameErr drv (platformIds drv j) = CL_SUCCESS
               \<and> platformNameBuf drv (platformIds drv j) \<noteq> [])
        \<and> (platformNameSizeErr drv (platformIds drv k) \<noteq> CL_SUCCESS
             \<or> platformNameErr drv (platformIds drv k) \<noteq> CL_SUCCESS) \<longrightarrow>
      outcome (executeKernel drv a) = Exited
      \<and> (\<exists>pre line err. trace (executeKernel drv a)
              = pre @ [DriverCall line err, CoutError line err]
            \<and> err \<noteq> CL_SUCCESS \<and> (line = 45 \<or> line = 47))"
    using exit_platform_name [of drv _ a] by blast
  have c4: "\<forall>t1 pid. enumeratePlatforms drv a [] = Inr (t1, pid)
        \<and> numDevicesErr drv pid \<noteq> CL_SUCCESS \<longrightarrow>
      outcome (executeKernel drv a) = Exited
      \<and> trace (executeKernel drv a)
          = t1 @ [DriverCall 73 (numDevicesErr drv pid), CoutError 73 (numDevicesErr drv pid)]"
    by (simp add: executeKernel_def contextSetup_def deviceSetup_def selectDevice_def
        CL_CALL_def stop_def)
  have c5: "\<forall>t1 pid. enumeratePlatforms drv a [] = Inr (t1, pid)
        \<and> numDevicesErr drv pid = CL_SUCCESS \<and> \<not> numDevices drv pid \<le> deviceId a
        \<and> deviceIdsErr drv pid \<noteq> CL_SUCCESS \<longrightarrow>
      outcome (executeKernel drv a) = Exited
      \<and> trace (executeKernel drv a)
          = t1 @ [DriverCall 73 CL_SUCCESS,
                  DriverCall 81 (deviceIdsErr drv pid), CoutError 81 (deviceIdsErr drv pid)]"
    by (simp add: executeKernel_def contextSetup_def deviceSetup_def selectDevice_def
        CL_CALL_def stop_def)
  have c6: "\<forall>t1 pid t2 dev k. enumeratePlatforms drv a [] = Inr (t1, pid)
        \<and> selectDevice drv a pid t1 = Inr (t2, dev) \<and> showDeviceInfo a \<and> k < 6
        \<and> (\<forall>j < k. deviceInfoErr drv dev j = CL_SUCCESS)
        \<and> deviceInfoErr drv dev k \<noteq> CL_SUCCESS \<longrightarrow>
      outcome (executeKernel drv a) = Exited
      \<and> trace (executeKernel drv a)
          = t2 @ map (\<lambda>j. DriverCall (91 + j) CL_SUCCESS) [0..<k]
               @ [DriverCall (91 + k) (deviceInfoErr drv dev k),
                  CoutError (91 + k) (deviceInfoErr drv dev k)]"
  proof (intro allI impI, elim conjE)
    fix t1 pid t2 dev k
    assume "enumeratePlatforms drv a [] = Inr (t1, pid)"
      and "selectDevice drv a pid t1 = Inr (t2, dev)" and "showDeviceInfo a" and "k < 6"
      and "\<forall>j < k. deviceInfoErr drv dev j = CL_SUCCESS"
      and "deviceInfoErr drv dev k \<noteq> CL_SUCCESS"
    then have "executeKernel drv a
           = stop a (t2 @ map (\<lambda>j. DriverCall (91 + j) CL_SUCCESS) [0..<k]
                       @ [DriverCall (91 + k) (deviceInfoErr drv dev k),
                          CoutError (91 + k) (deviceInfoErr drv dev k)], Exited)"
      by (rule exit_device_info)
    then show "outcome (executeKernel drv a) = Exited
      \<and> trace (executeKernel drv a)
          = t2 @ map (\<lambda>j. DriverCall (91 + j) CL_SUCCESS) [0..<k]
               @ [DriverCall (91 + k) (deviceInfoErr drv dev k),
                  CoutError (91 + k) (deviceInfoErr drv dev k)]"
      by (simp only: stop_simps simp_thms)
  qed
  have c7: "\<forall>t3 dev. deviceSetup drv a = Inr (t3, dev) \<and> contextHandle drv = 0 \<longrightarrow>
      outcome (executeKernel drv a) = Returned (- 1)
      \<and> trace (executeKernel drv a) = t3 @ [CreateContext dev 0, CerrCode (contextErr drv)]"
    by (simp add: executeKernel_def contextSetup_def createContextAndQueue_def stop_def)
  have c8: "\<forall>t3 dev. deviceSetup drv a = Inr (t3, dev) \<and> contextHandle drv \<noteq> 0
        \<and> queueHandle drv = 0 \<longrightarrow>
      outcome (executeKernel drv a) = Returned (- 1)
      \<and> trace (executeKernel drv a)
          = t3 @ [CreateContext dev (contextHandle drv), CreateCommandQueue (contextHandle drv) 0,
                  CerrCode (queueErr drv), ReleaseContext (contextHandle drv)]"
    by (simp add: executeKernel_def contextSetup_def createContextAndQueue_def Let_def
        releaseResources_no_buffers releaseAndReturn_def stop_def)
  have c9: "\<forall>t4 dev c q. contextSetup drv a = Inr (t4, dev, c, q)
        \<and> (kernelFile drv = None \<or> keccakFile drv = None) \<longrightarrow>
      outcome (executeKernel drv a) = Returned (- 1)"
    using ret_build(1) [of drv a] by blast
  have c10: "\<forall>t4 dev c q. contextSetup drv a = Inr (t4, dev, c, q)
        \<and> kernelFile drv \<noteq> None \<and> keccakFile drv \<noteq> None \<and> programHandle drv = 0 \<longrightarrow>
      outcome (executeKernel drv a) = Returned (- 1)"
    using ret_build(2) [of drv a] by blast
  have c11: "\<forall>t4 dev c q. contextSetup drv a = Inr (t4, dev, c, q)
        \<and> kernelFile drv \<noteq> None \<and> keccakFile drv \<noteq> None \<and> programHandle drv \<noteq> 0
        \<and> buildErr drv \<noteq> CL_SUCCESS
        \<and> buildLogSizeErr drv = CL_SUCCESS \<and> buildLogSize drv \<noteq> 0
        \<and> (buildLogErr drv \<noteq> CL_SUCCESS
             \<or> (\<exists>logText. buildLog drv = logText @ [CHR 0x00]
                    \<and> length logText < unat (buildLogSize drv))) \<longrightarrow>
      outcome (executeKernel drv a) = Returned (- 1)"
    using ret_build(3) [of drv a] by blast
  have c12: "\<forall>t4 dev c q. contextSetup drv a = Inr (t4, dev, c, q)
        \<and> kernelFile drv \<noteq> None \<and> keccakFile drv \<noteq> None \<and> programHandle drv \<noteq> 0
        \<and> buildErr drv = CL_SUCCESS
        \<and> (kernelHandle drv = 0 \<or> kernelErr drv \<noteq> CL_SUCCESS) \<longrightarrow>
      outcome (executeKernel drv a) = Returned (- 1)"
    using ret_build(4) [of drv a] by blast
  have c13: "\<forall>t4 dev c q t5 p k. contextSetup drv a = Inr (t4, dev, c, q)
        \<and> buildKernel drv dev c q t4 = Inr (t5, p, k)
        \<and> (\<exists>i < 4. bufferHandle drv i = 0) \<longrightarrow>
      outcome (executeKernel drv a) = Returned (- 1)"
    using ret_bind(1) [of drv a] by blast
  have c14: "\<forall>t4 dev c q t5 p k. contextSetup drv a = Inr (t4, dev, c, q)
        \<and> buildKernel drv dev c q t4 = Inr (t5, p, k)
        \<and> (\<forall>i < 4. bufferHandle drv i \<noteq> 0)
        \<and> (writeFoundErr drv \<noteq> CL_SUCCESS \<or> (\<exists>i < 9. setArgErr drv i \<noteq> CL_SUCCESS)) \<longrightarrow>
      outcome (executeKernel drv a) = Returned (- 1)"
    using ret_bind(2) [of drv a] by blast
  have c15: "\<forall>t4 dev c q t5 p k t6 bufs. contextSetup drv a = Inr (t4, dev, c, q)
        \<and> buildKernel drv dev c q t4 = Inr (t5, p, k)
        \<and> bindBuffers drv c q p k t5 = Inr (t6, bufs)
        \<and> maxWorkGroupSizeErr drv dev = CL_SUCCESS
        \<and> localWorkSize (threadsPerBlock a) (maxWorkGroupSize drv dev) \<noteq> 0
        \<and> enqueueErr drv \<noteq> CL_SUCCESS \<longrightarrow>
      outcome (executeKernel drv a) = Returned (- 1)"
    using ret_enqueue [of drv a] by blast
  show ?thesis
    by (rule conjI [OF c1
      conjI [OF c2
      conjI [OF c3
      conjI [OF c4
      conjI [OF c5
      conjI [OF c6
      conjI [OF c7
      conjI [OF c8
      conjI [OF c9
      conjI [OF c10
      conjI [OF c11
      conjI [OF c12
      conjI [OF c13
      conjI [OF c14 c15]]]]]]]]]]]]]])
qed

theorem setup_failures_exit_or_return_witness:
  "outcome (executeKernel (demoDriver\<lparr>numDevicesErr := (\<lambda>p. - 1)\<rparr>) demoArgs) = Exited
   \<and> trace (executeKernel (demoDriver\<lparr>numDevicesErr := (\<lambda>p. - 1)\<rparr>) demoArgs)
       = [DriverCall 59 CL_SUCCESS, DriverCall 61 CL_SUCCESS, Cout ''OpenCL platforms:'',
          DriverCall 45 CL_SUCCESS, DriverCall 47 CL_SUCCESS, Cout ''    [ ] GPU'',
          DriverCall 73 (- 1), CoutError 73 (- 1)]
   \<and> outcome (executeKernel (demoDriver\<lparr>deviceInfoErr := (\<lambda>d i. if i = 2 then - 30 else 0)\<rparr>)
                 (demoArgs\<lparr>showDeviceInfo := True\<rparr>)) = Exited
   \<and> trace (executeKernel (demoDriver\<lparr>deviceInfoErr := (\<lambda>d i. if i = 2 then - 30 else 0)\<rparr>)
                 (demoArgs\<lparr>showDeviceInfo := True\<rparr>))
       = [DriverCall 59 CL_SUCCESS, DriverCall 61 CL_SUCCESS, Cout ''OpenCL platforms:'',
          DriverCall 45 CL_SUCCESS, DriverCall 47 CL_SUCCESS, Cout ''    [ ] GPU'',
          DriverCall 73 CL_SUCCESS, DriverCall 81 CL_SUCCESS,
          DriverCall 91 CL_SUCCESS, DriverCall 92 CL_SUCCESS,
          DriverCall 93 (- 30), CoutError 93 (- 30)]
   \<and> outcome (executeKernel (demoDriver\<lparr>contextHandle := 0, contextErr := - 6\<rparr>) demoArgs)
       = Returned (- 1)
   \<and> outcome (executeKernel (demoDriver\<lparr>queueHandle := 0, queueErr := - 6\<rparr>) demoArgs)
       = Returned (- 1)
   \<and> outcome (executeKernel (demoDriver\<lparr>setArgErr := (\<lambda>i. if i = 5 then - 49 else 0)\<rparr>) demoArgs)
       = Returned (- 1)"
proof -
  let ?t1 = "[DriverCall 59 CL_SUCCESS, DriverCall 61 CL_SUCCESS, Cout ''OpenCL platforms:'',
        DriverCall 45 CL_SUCCESS, DriverCall 47 CL_SUCCESS, Cout ''    [ ] GPU'']"
  let ?t3 = "?t1 @ [DriverCall 73 CL_SUCCESS, DriverCall 81 CL_SUCCESS]"
  let ?t4 = "?t3 @ [CreateContext 21 31, CreateCommandQueue 31 32]"
  let ?t5 = "?t4 @ [CreateProgramWithSource (''keccak'' @ [CHR 0x0A] @ ''run'') 33,
        BuildProgram 33 CL_SUCCESS, CreateKernel 33 34]"
  let ?D1 = "demoDriver\<lparr>numDevicesErr := (\<lambda>p. - 1)\<rparr>"
  let ?D2 = "demoDriver\<lparr>deviceInfoErr := (\<lambda>d i. if i = 2 then - 30 else 0)\<rparr>"
  let ?A2 = "demoArgs\<lparr>showDeviceInfo := True\<rparr>"
  let ?D3 = "demoDriver\<lparr>contextHandle := 0, contextErr := - 6\<rparr>"
  let ?D4 = "demoDriver\<lparr>queueHandle := 0, queueErr := - 6\<rparr>"
  let ?D5 = "demoDriver\<lparr>setArgErr := (\<lambda>i. if i = 5 then - 49 else 0)\<rparr>"
  have h1: "enumeratePlatforms ?D1 demoArgs [] = Inr (?t1, 11)
            \<and> numDevicesErr ?D1 11 \<noteq> CL_SUCCESS"
    by (simp add: enumeratePlatforms_def CL_CALL_def getPlatform_def demoDriver_def demoArgs_def
          Let_def)
  have h2: "enumeratePlatforms ?D2 ?A2 [] = Inr (?t1, 11)
            \<and> selectDevice ?D2 ?A2 11 ?t1 = Inr (?t3, 21) \<and> showDeviceInfo ?A2 \<and> (2 :: nat) < 6
            \<and> (\<forall>j < 2. deviceInfoErr ?D2 21 j = CL_SUCCESS)
            \<and> deviceInfoErr ?D2 21 2 \<noteq> CL_SUCCESS"
    by (simp add: enumeratePlatforms_def selectDevice_def CL_CALL_def getPlatform_def
          demoDriver_def demoArgs_def Let_def)
  have h3: "deviceSetup ?D3 demoArgs = Inr (?t3, 21) \<and> contextHandle ?D3 = 0"
    by (simp add: deviceSetup_def enumeratePlatforms_def selectDevice_def printDeviceInfo_def
          CL_CALL_def getPlatform_def demoDriver_def demoArgs_def Let_def)
  have h4: "deviceSetup ?D4 demoArgs = Inr (?t3, 21) \<and> contextHandle ?D4 \<noteq> 0
            \<and> queueHandle ?D4 = 0"
    by (simp add: deviceSetup_def enumeratePlatforms_def selectDevice_def printDeviceInfo_def
          CL_CALL_def getPlatform_def demoDriver_def demoArgs_def Let_def)
  have h5: "contextSetup ?D5 demoArgs = Inr (?t4, 21, 31, 32)
            \<and> buildKernel ?D5 21 31 32 ?t4 = Inr (?t5, 33, 34)
            \<and> (\<forall>i < 4. bufferHandle ?D5 i \<noteq> 0)
            \<and> (writeFoundErr ?D5 \<noteq> CL_SUCCESS \<or> (\<exists>i < 9. setArgErr ?D5 i \<noteq> CL_SUCCESS))"
  proof -
    have "(5 :: nat) < 9 \<and> setArgErr ?D5 5 \<noteq> CL_SUCCESS" by simp
    then have "\<exists>i < 9. setArgErr ?D5 i \<noteq> CL_SUCCESS" by blast
    then show ?thesis
      by (simp add: contextSetup_def deviceSetup_def enumeratePlatforms_def selectDevice_def
          printDeviceInfo_def createContextAndQueue_def buildKernel_def CL_CALL_def
          getPlatform_def demoDriver_def demoArgs_def Let_def)
  qed
  note w1 = setup_failures_exit_or_return [of ?D1 demoArgs, THEN conjunct2, THEN conjunct2, THEN conjunct2, THEN conjunct1, rule_format, OF h1]
  note w2 = setup_failures_exit_or_return [of ?D2 ?A2, THEN conjunct2, THEN conjunct2, THEN conjunct2, THEN conjunct2, THEN conjunct2, THEN conjunct1, rule_format, OF h2]
  note w3 = setup_failures_exit_or_return [of ?D3 demoArgs, THEN conjunct2, THEN conjunct2, THEN conjunct2, THEN conjunct2, THEN conjunct2, THEN conjunct2, THEN conjunct1, rule_format, OF h3]
  note w4 = setup_failures_exit_or_return [of ?D4 demoArgs, THEN conjunct2, THEN conjunct2, THEN conjunct2, THEN conjunct2, THEN conjunct2, THEN conjunct2, THEN conjunct2, THEN conjunct1, rule_format, OF h4]
  note w5 = setup_failures_exit_or_return [of ?D5 demoArgs, THEN conjunct2, THEN conjunct2, THEN conjunct2, THEN conjunct2, THEN conjunct2, THEN conjunct2, THEN conjunct2, THEN conjunct2, THEN conjunct2, THEN conjunct2, THEN conjunct2, THEN conjunct2, THEN conjunct2, THEN conjunct1, rule_format, OF h5]
  show ?thesis using w1 w2 w3 w4 w5 by (simp add: demoDriver_def upt_rec)
qed

end
